theory Spec2Isabelle
  imports Main
begin

unbundle bit_operations_syntax

section \<open>Nonce encoding (src/lib/mining/nonce.ts)\<close>

text \<open>
  Errors are values. Each constructor stands for one \<^verbatim>\<open>throw\<close> site (or one failure of
  an external call) of the TypeScript sources.
\<close>

datatype error =
    NonceInvalidLength nat
  | RomInitTimeout
  | WalletLoadFailed string
  | ChallengeFetchFailed string
  | RomInitFailed string
  | DevFeeNotEnabled
  | DevFeeFetchFailed string
  | ReceiptsReadFailed string

text \<open>
  \<^verbatim>\<open>Number.prototype.toString(16)\<close> on a non-negative integer: the digits come from the
  lowercase table, most significant first, with no leading zero (a single \<^verbatim>\<open>0\<close> for zero).
\<close>

definition hexDigits :: string where
  "hexDigits = ''0123456789abcdef''"

definition hexDigit :: "nat \<Rightarrow> char" where
  "hexDigit d = hexDigits ! (d mod 16)"

fun toString16 :: "nat \<Rightarrow> string" where
  "toString16 n = (if n < 16 then [hexDigit n] else toString16 (n div 16) @ [hexDigit (n mod 16)])"

declare toString16.simps [simp del]

text \<open>\<^verbatim>\<open>String.prototype.padStart(targetLength, c)\<close> with a one-character pad string.\<close>

definition padStart :: "nat \<Rightarrow> char \<Rightarrow> string \<Rightarrow> string" where
  "padStart targetLength c s = replicate (targetLength - length s) c @ s"

text \<open>
  \<^verbatim>\<open>numberToNonce(num) = num.toString(16).padStart(16, '0')\<close>. The argument is a JavaScript
  number; the model covers its non-negative integer values.
\<close>

definition numberToNonce :: "nat \<Rightarrow> string" where
  "numberToNonce num = padStart 16 (CHR ''0'') (toString16 num)"

text \<open>
  \<^verbatim>\<open>generateNonce(workerId = 0)\<close>. The eight cells of the \<^verbatim>\<open>Uint8Array\<close> are a list of
  naturals below 256. Cell 0 is \<^verbatim>\<open>workerId & 0xFF\<close>; cell \<open>i\<close> (1 to 7) is the \<open>i\<close>-th draw
  \<^verbatim>\<open>Math.floor(Math.random() * 256)\<close>, given by the parameter \<open>rnd\<close> (draws are numbered
  from 0) and reduced modulo 256 as a store into a \<^verbatim>\<open>Uint8Array\<close> does.
\<close>

definition nonceBytes :: "int \<Rightarrow> (nat \<Rightarrow> nat) \<Rightarrow> nat list" where
  "nonceBytes workerId rnd = nat (workerId AND 255) # map (\<lambda>i. rnd (i - 1) mod 256) [1..<8]"

definition byteHex :: "nat \<Rightarrow> string" where
  "byteHex b = padStart 2 (CHR ''0'') (toString16 b)"

definition generateNonce :: "int \<Rightarrow> (nat \<Rightarrow> nat) \<Rightarrow> error + string" where
  "generateNonce workerId rnd =
     (let nonce = concat (map byteHex (nonceBytes workerId rnd))
      in if length nonce \<noteq> 16 then Inl (NonceInvalidLength (length nonce)) else Inr nonce)"

text \<open>The call \<^verbatim>\<open>generateNonce()\<close> of the miner takes the default worker id.\<close>

definition generateNonce_default :: "(nat \<Rightarrow> nat) \<Rightarrow> error + string" where
  "generateNonce_default rnd = generateNonce 0 rnd"

definition isHexString :: "string \<Rightarrow> bool" where
  "isHexString s = list_all (\<lambda>c. c \<in> set hexDigits) s"


section \<open>Dev fee manager (DevFeeManager)\<close>

record DevFeeConfig =
  enabled :: bool
  apiUrl :: string
  ratio :: nat
  cacheFile :: string
  clientId :: string

text \<open>\<^verbatim>\<open>Partial<DevFeeConfig>\<close>: every field may be absent.\<close>

record PartialDevFeeConfig =
  p_enabled :: "bool option"
  p_apiUrl :: "string option"
  p_ratio :: "nat option"
  p_cacheFile :: "string option"

record DevFeeAddress =
  address :: string
  addressIndex :: int
  fetchedAt :: nat
  usedCount :: nat

record DevFeeCache =
  currentAddress :: "DevFeeAddress option"
  totalDevFeeSolutions :: nat
  lastFetchError :: "string option"
  cache_clientId :: "string option"

record DevFeeManager =
  config :: DevFeeConfig
  cache :: DevFeeCache

text \<open>
  The constructor calls \<^verbatim>\<open>loadCache()\<close> before \<^verbatim>\<open>this.config\<close> is assigned, so the read of
  \<^verbatim>\<open>this.config.cacheFile\<close> raises inside the \<^verbatim>\<open>try\<close> of \<^verbatim>\<open>loadCache\<close> and the cache starts
  from the default value; the client id is therefore always freshly generated
  (\<open>newId\<close>, the value of \<^verbatim>\<open>generateClientId()\<close>). \<^verbatim>\<open>a ?? b\<close> takes \<open>b\<close> when \<open>a\<close> is absent,
  \<^verbatim>\<open>a || b\<close> also when \<open>a\<close> is the empty string. \<open>cwd\<close> is \<^verbatim>\<open>process.cwd()\<close>.
\<close>

definition loadCache_default :: DevFeeCache where
  "loadCache_default =
     \<lparr>currentAddress = None, totalDevFeeSolutions = 0, lastFetchError = None, cache_clientId = None\<rparr>"

definition orElse :: "string option \<Rightarrow> string \<Rightarrow> string" where
  "orElse a b = (case a of None \<Rightarrow> b | Some x \<Rightarrow> if x = [] then b else x)"

definition DevFeeManager_new :: "PartialDevFeeConfig \<Rightarrow> string \<Rightarrow> string \<Rightarrow> DevFeeManager" where
  "DevFeeManager_new cfg cwd newId =
     (let c0 = loadCache_default;
          cid = orElse (cache_clientId c0) newId
      in \<lparr>config = \<lparr>enabled = (case p_enabled cfg of None \<Rightarrow> True | Some b \<Rightarrow> b),
                     apiUrl = orElse (p_apiUrl cfg) ''https://miner.ada.markets/api/get-dev-address'',
                     ratio = (case p_ratio cfg of None \<Rightarrow> 25 | Some r \<Rightarrow> r),
                     cacheFile = orElse (p_cacheFile cfg) (cwd @ ''/.devfee_cache.json''),
                     clientId = cid\<rparr>,
          cache = (case cache_clientId c0 of
                     None \<Rightarrow> c0\<lparr>cache_clientId := Some cid\<rparr>
                   | Some x \<Rightarrow> if x = [] then c0\<lparr>cache_clientId := Some cid\<rparr> else c0)\<rparr>)"

text \<open>The singleton \<^verbatim>\<open>devFeeManager = new DevFeeManager()\<close>: no field is overridden.\<close>

definition noOverrides :: PartialDevFeeConfig where
  "noOverrides = \<lparr>p_enabled = None, p_apiUrl = None, p_ratio = None, p_cacheFile = None\<rparr>"

definition devFeeManager :: "string \<Rightarrow> string \<Rightarrow> DevFeeManager" where
  "devFeeManager cwd newId = DevFeeManager_new noOverrides cwd newId"

definition isEnabled :: "DevFeeManager \<Rightarrow> bool" where
  "isEnabled m = (enabled (config m) \<and> 0 < length (apiUrl (config m)))"

definition getRatio :: "DevFeeManager \<Rightarrow> nat" where
  "getRatio m = ratio (config m)"

definition getTotalDevFeeSolutions :: "DevFeeManager \<Rightarrow> nat" where
  "getTotalDevFeeSolutions m = totalDevFeeSolutions (cache m)"

definition recordDevFeeSolution :: "DevFeeManager \<Rightarrow> DevFeeManager" where
  "recordDevFeeSolution m =
     m\<lparr>cache := (cache m)\<lparr>totalDevFeeSolutions := totalDevFeeSolutions (cache m) + 1,
                            currentAddress := map_option (\<lambda>a. a\<lparr>usedCount := usedCount a + 1\<rparr>)
                                                (currentAddress (cache m))\<rparr>\<rparr>"

text \<open>
  The answer of the assignment service to the \<^verbatim>\<open>axios.post\<close> of \<^verbatim>\<open>fetchDevFeeAddress\<close>:
  a body \<^verbatim>\<open>{devAddress, devAddressIndex, isNewAssignment}\<close>, or a failure of the call with
  its message (network error, timeout, error status).
\<close>

datatype fetch_result =
    FetchOk string int bool
  | FetchFail string

definition startsWith :: "string \<Rightarrow> string \<Rightarrow> bool" where
  "startsWith s p = (take (length p) s = p)"

text \<open>
  The body of the \<^verbatim>\<open>try\<close> block up to the validation: \<open>Inl\<close> is the message of the error
  that reaches the \<^verbatim>\<open>catch\<close>.
\<close>

definition fetchAttempt :: "fetch_result \<Rightarrow> string + (string \<times> int)" where
  "fetchAttempt r =
     (case r of
        FetchFail msg \<Rightarrow> Inl msg
      | FetchOk devAddress devAddressIndex isNew \<Rightarrow>
          if \<not> startsWith devAddress ''tnight1'' \<and> \<not> startsWith devAddress ''addr1''
          then Inl (''Invalid address format: '' @ devAddress)
          else Inr (devAddress, devAddressIndex))"

text \<open>
  \<^verbatim>\<open>fetchDevFeeAddress\<close>; \<open>tnow\<close> is \<^verbatim>\<open>Date.now()\<close> when the answer is stored. The guard on
  \<^verbatim>\<open>isEnabled\<close> stands before the \<^verbatim>\<open>try\<close>, so its error is not caught by the fallback.
\<close>

definition fetchDevFeeAddress :: "nat \<Rightarrow> fetch_result \<Rightarrow> DevFeeManager \<Rightarrow> (error + string) \<times> DevFeeManager" where
  "fetchDevFeeAddress tnow r m =
     (if \<not> isEnabled m then (Inl DevFeeNotEnabled, m)
      else case fetchAttempt r of
        Inr (devAddress, devAddressIndex) \<Rightarrow>
          (Inr devAddress,
           m\<lparr>cache := (cache m)\<lparr>currentAddress :=
                          Some \<lparr>address = devAddress, addressIndex = devAddressIndex,
                                fetchedAt = tnow, usedCount = 0\<rparr>,
                        lastFetchError := None\<rparr>\<rparr>)
      | Inl errorMsg \<Rightarrow>
          (let m' = m\<lparr>cache := (cache m)\<lparr>lastFetchError := Some errorMsg\<rparr>\<rparr>
           in case currentAddress (cache m') of
                Some ca \<Rightarrow> (Inr (address ca), m')
              | None \<Rightarrow> (Inl (DevFeeFetchFailed errorMsg), m')))"

definition ONE_HOUR :: int where
  "ONE_HOUR = 60 * 60 * 1000"

text \<open>
  \<^verbatim>\<open>getDevFeeAddress\<close>; \<open>now\<close> is \<^verbatim>\<open>Date.now()\<close> at the age test, \<open>tnow\<close> the later reading
  inside \<^verbatim>\<open>fetchDevFeeAddress\<close>.
\<close>

definition getDevFeeAddress :: "nat \<Rightarrow> nat \<Rightarrow> fetch_result \<Rightarrow> DevFeeManager \<Rightarrow> (error + string) \<times> DevFeeManager" where
  "getDevFeeAddress now tnow r m =
     (case currentAddress (cache m) of
        Some ca \<Rightarrow>
          if int now - int (fetchedAt ca) < ONE_HOUR then (Inr (address ca), m)
          else fetchDevFeeAddress tnow r m
      | None \<Rightarrow> fetchDevFeeAddress tnow r m)"


section \<open>Mining orchestrator (MiningOrchestrator)\<close>

subsection \<open>Data\<close>

record DerivedAddress =
  index :: int
  bech32 :: string
  publicKeyHex :: string
  registered :: bool

record Challenge =
  challenge_id :: string
  difficulty :: string
  no_pre_mine :: bool

datatype Code = CodeBefore | CodeActive | CodeAfter

record ChallengeResponse =
  code :: Code
  challenge :: "Challenge option"
  starts_at :: "string option"

text \<open>A record of the receipt journal, as \<^verbatim>\<open>receiptsLogger.logReceipt\<close> is given it.\<close>

record Receipt =
  r_ts :: nat
  r_address :: string
  r_challenge_id :: string
  r_nonce :: string
  r_hash :: string
  r_crypto_receipt :: "string option"
  r_isDevFee :: bool

text \<open>
  The answer to the \<^verbatim>\<open>axios.post\<close> of a solution: a response with its status, status text
  and the \<^verbatim>\<open>crypto_receipt\<close> of its body, or no response at all (timeout, network error).
\<close>

datatype post_result =
    HttpResponse nat string "string option"
  | NetworkFailure string

text \<open>
  What reaches the \<^verbatim>\<open>catch\<close> of \<^verbatim>\<open>submitSolution\<close>: the error thrown by the code on a status
  outside 2xx, the rejection of axios itself when \<^verbatim>\<open>validateStatus\<close> fails (status 500 and
  above), or the rejection of axios without a response.
\<close>

datatype submit_error =
    ServerRejected nat string
  | AxiosBadStatus nat string
  | AxiosNoResponse string

record ErrorReceipt =
  e_ts :: nat
  e_address :: string
  e_challenge_id :: "string option"
  e_nonce :: string
  e_hash :: string
  e_error :: submit_error

datatype MiningEvent =
    Status bool "string option"
  | MiningStart string int string
  | HashProgress string int nat
  | Stats
  | SolutionSubmit string int string string string
  | SolutionResult string int bool "submit_error option"
  | Solution string string string
  | RegistrationProgress int string nat nat bool
  | ErrorEvent error

text \<open>
  The observable actions of the orchestrator in the order they happen: an event given to
  \<^verbatim>\<open>emit\<close>, and the network submission \<^verbatim>\<open>POST /solution/{address}/{challenge_id}/{nonce}\<close>.
\<close>

datatype action =
    Emit MiningEvent
  | Post string string string

text \<open>The lines of the console output that the properties below refer to.\<close>

datatype log_line =
    LogAlreadyRunning
  | LogRomNotReady int
  | LogBatchError
  | LogLoadFailed error
  | LogDevFeeDisabled
  | LogDevFeeFetching nat nat
  | LogDevFeeFetchingUnbounded
  | LogDevFeeCompleted nat nat
  | LogDevFeeFailed nat nat error
  | LogDevFeeUpToDate
  | LogDevFeeAhead

text \<open>
  Asynchronous work that is started and not awaited (\<^verbatim>\<open>this.pollLoop()\<close>,
  \<^verbatim>\<open>this.startMining()\<close>, \<^verbatim>\<open>this.checkAndMineDevFee().catch(...)\<close>): the caller goes on, and
  the model records that the task was launched. An asynchronous function runs inside the
  call up to its first \<^verbatim>\<open>await\<close>: what it writes to the state before that point belongs
  to the caller's result (the functions named \<open>_sync\<close> below), and the launched task is
  what remains to run after it. Of the three, only \<^verbatim>\<open>startMining\<close> writes to the state before
  its first \<^verbatim>\<open>await\<close>; the other two reach a network call first.
\<close>

datatype task = TaskPollLoop | TaskStartMining | TaskCheckAndMineDevFee

text \<open>
  The fields of the class, then the state of the collaborators the orchestrator writes to:
  the dev fee manager singleton, the readiness of the hash engine's ROM, the two journals
  of the receipts logger, the actions performed, the console and the launched tasks. The
  fields that only feed the statistics (hash-rate clock, CPU usage, worker count) are left
  out.
\<close>

record state =
  isRunning :: bool
  currentChallengeId :: "string option"
  pollTimer :: bool
  walletManager :: bool
  addresses :: "DerivedAddress list"
  solutionsFound :: nat
  startTime :: "nat option"
  isMining :: bool
  currentChallenge :: "Challenge option"
  totalHashesComputed :: nat
  addressesProcessedCurrentChallenge :: "int set"
  solutionTimestamps :: "nat list"
  submittedSolutions :: "string set"
  solvedAddressChallenges :: "string \<rightharpoonup> string set"
  userSolutionsCount :: nat
  devFee :: DevFeeManager
  romReady :: bool
  receipts :: "Receipt list"
  errors :: "ErrorReceipt list"
  trace :: "action list"
  console :: "log_line list"
  spawned :: "task list"

definition emit :: "MiningEvent \<Rightarrow> state \<Rightarrow> state" where
  "emit ev s = s\<lparr>trace := trace s @ [Emit ev]\<rparr>"

definition consoleLog :: "log_line \<Rightarrow> state \<Rightarrow> state" where
  "consoleLog l s = s\<lparr>console := console s @ [l]\<rparr>"

definition spawn :: "task \<Rightarrow> state \<Rightarrow> state" where
  "spawn t s = s\<lparr>spawned := spawned s @ [t]\<rparr>"

text \<open>JavaScript truthiness of a \<^verbatim>\<open>string | null\<close>: neither null nor empty.\<close>

definition truthy :: "string option \<Rightarrow> bool" where
  "truthy x = (case x of None \<Rightarrow> False | Some v \<Rightarrow> v \<noteq> [])"

text \<open>
  \<^verbatim>\<open>if (!map.has(a)) map.set(a, new Set()); map.get(a).add(c)\<close> on the Solved-Pairs map.
\<close>

definition markSolved :: "string \<Rightarrow> string \<Rightarrow> (string \<rightharpoonup> string set) \<Rightarrow> (string \<rightharpoonup> string set)" where
  "markSolved a c m = m(a \<mapsto> insert c (case m a of None \<Rightarrow> {} | Some cs \<Rightarrow> cs))"

definition isSolved :: "(string \<rightharpoonup> string set) \<Rightarrow> string \<Rightarrow> string \<Rightarrow> bool" where
  "isSolved m a c = (case m a of None \<Rightarrow> False | Some cs \<Rightarrow> c \<in> cs)"

subsection \<open>submitSolution\<close>

text \<open>
  The \<^verbatim>\<open>axios.post\<close> with \<^verbatim>\<open>validateStatus: status < 500\<close> followed by the test
  \<^verbatim>\<open>status >= 200 && status < 300\<close>: \<open>Inr\<close> carries the \<^verbatim>\<open>crypto_receipt\<close> of an accepted
  submission, \<open>Inl\<close> the error that reaches the \<^verbatim>\<open>catch\<close>.
\<close>

definition postOutcome :: "post_result \<Rightarrow> submit_error + string option" where
  "postOutcome r =
     (case r of
        NetworkFailure msg \<Rightarrow> Inl (AxiosNoResponse msg)
      | HttpResponse status statusText crypto \<Rightarrow>
          if \<not> status < 500 then Inl (AxiosBadStatus status statusText)
          else if 200 \<le> status \<and> status < 300 then Inr crypto
          else Inl (ServerRejected status statusText))"

text \<open>
  \<open>now\<close> is the clock reading used for the time stamps, \<open>resp\<close> the answer to the one
  \<^verbatim>\<open>axios.post\<close> of the function.
\<close>

definition submitSolution ::
  "nat \<Rightarrow> post_result \<Rightarrow> DerivedAddress \<Rightarrow> string \<Rightarrow> string \<Rightarrow> string \<Rightarrow> bool \<Rightarrow> state \<Rightarrow> state" where
  "submitSolution now resp addr nonce hash preimage isDevFee s =
     (case currentChallengeId s of
        None \<Rightarrow> s
      | Some cid \<Rightarrow>
          if cid = [] \<or> \<not> walletManager s then s
          else
            let s1 = s\<lparr>trace := trace s @ [Post (bech32 addr) cid nonce]\<rparr>
            in (case postOutcome resp of
                 Inr crypto \<Rightarrow>
                   let s2 = s1\<lparr>solutionsFound := solutionsFound s1 + 1\<rparr>;
                       s3 = (if isDevFee then s2\<lparr>devFee := recordDevFeeSolution (devFee s2)\<rparr>
                             else spawn TaskCheckAndMineDevFee
                                    (s2\<lparr>userSolutionsCount := userSolutionsCount s2 + 1\<rparr>));
                       s4 = s3\<lparr>solutionTimestamps := solutionTimestamps s3 @ [now]\<rparr>;
                       s5 = s4\<lparr>receipts := receipts s4 @
                              [\<lparr>r_ts = now, r_address = bech32 addr, r_challenge_id = cid,
                                r_nonce = nonce, r_hash = hash, r_crypto_receipt = crypto,
                                r_isDevFee = isDevFee\<rparr>]\<rparr>
                   in emit (Solution (bech32 addr) cid nonce)
                        (emit (SolutionResult (bech32 addr) (index addr) True None) s5)
               | Inl err \<Rightarrow>
                   emit (SolutionResult (bech32 addr) (index addr) False (Some err))
                     (s1\<lparr>errors := errors s1 @
                           [\<lparr>e_ts = now, e_address = bech32 addr, e_challenge_id = Some cid,
                             e_nonce = nonce, e_hash = hash, e_error = err\<rparr>]\<rparr>)))"

subsection \<open>loadSubmittedSolutions\<close>

definition addReceipt :: "state \<Rightarrow> Receipt \<Rightarrow> state" where
  "addReceipt s receipt =
     (let s1 = (if r_hash receipt \<noteq> []
                then s\<lparr>submittedSolutions := insert (r_hash receipt) (submittedSolutions s)\<rparr>
                else s)
      in s1\<lparr>solvedAddressChallenges :=
               markSolved (r_address receipt) (r_challenge_id receipt) (solvedAddressChallenges s1)\<rparr>)"

text \<open>
  \<open>rd\<close> is the result of \<^verbatim>\<open>receiptsLogger.readReceipts()\<close>; when it raises, the \<^verbatim>\<open>catch\<close>
  only writes to the console.
\<close>

definition loadSubmittedSolutions :: "error + Receipt list \<Rightarrow> state \<Rightarrow> state" where
  "loadSubmittedSolutions rd s =
     (case rd of
        Inl e \<Rightarrow> consoleLog (LogLoadFailed e) s
      | Inr allReceipts \<Rightarrow>
          let userReceipts = filter (\<lambda>r. \<not> r_isDevFee r) allReceipts;
              devFeeReceipts = filter (\<lambda>r. r_isDevFee r) allReceipts;
              s1 = s\<lparr>userSolutionsCount := length userReceipts\<rparr>
          in foldl addReceipt s1 userReceipts)"


subsection \<open>mineForAddress\<close>

text \<open>
  The two helpers imported from \<^verbatim>\<open>./difficulty\<close> and \<^verbatim>\<open>./preimage\<close> are parameters of the
  model: the difficulty test on a digest and the preimage builder.
\<close>

record collaborators =
  matchesDifficulty :: "string \<Rightarrow> string \<Rightarrow> bool"
  buildPreimage :: "string \<Rightarrow> string \<Rightarrow> Challenge \<Rightarrow> string"

text \<open>One answer of \<^verbatim>\<open>hashEngine.hashBatchAsync\<close>: the digests, or a rejection.\<close>

datatype hash_result =
    Hashes "string list"
  | HashFailure string

text \<open>
  What the outside world answers during one call of \<^verbatim>\<open>mineForAddress\<close>: the draws of
  \<^verbatim>\<open>Math.random\<close> (numbered from 0), the successive answers of the hash service, the
  answer to the submission and the clock reading at the submission. When the list of
  answers of the hash service is used up, the next \<^verbatim>\<open>await\<close> never resumes.
\<close>

record mine_env =
  rnd :: "nat \<Rightarrow> nat"
  hashBatchAsync :: "hash_result list"
  axiosPost :: post_result
  submitNow :: nat

definition BATCH_SIZE :: nat where
  "BATCH_SIZE = 1000"

fun sequenceE :: "(error + 'a) list \<Rightarrow> error + 'a list" where
  "sequenceE [] = Inr []"
| "sequenceE (x # xs) =
     (case x of
        Inl e \<Rightarrow> Inl e
      | Inr v \<Rightarrow> (case sequenceE xs of Inl e \<Rightarrow> Inl e | Inr vs \<Rightarrow> Inr (v # vs)))"

text \<open>
  Candidate \<open>i\<close> of batch \<open>b\<close> (batches counted from 0): \<^verbatim>\<open>generateNonce()\<close> with the default
  worker id, on the next seven draws, and its preimage.
\<close>

definition candidate :: "collaborators \<Rightarrow> (nat \<Rightarrow> nat) \<Rightarrow> nat \<Rightarrow> string \<Rightarrow> Challenge \<Rightarrow> nat \<Rightarrow> error + (string \<times> string)" where
  "candidate ext rd b addr ch i =
     (case generateNonce_default (\<lambda>j. rd (7 * (b * BATCH_SIZE + i) + j)) of
        Inl e \<Rightarrow> Inl e
      | Inr nonceHex \<Rightarrow> Inr (nonceHex, buildPreimage ext nonceHex addr ch))"

text \<open>
  The inner \<^verbatim>\<open>for\<close> loop that fills \<^verbatim>\<open>batchData\<close>. It contains no \<^verbatim>\<open>await\<close>, so the flags
  tested at its head cannot change while it runs and it always makes \<open>BATCH_SIZE\<close>
  candidates; an error of \<^verbatim>\<open>generateNonce\<close> leaves the function.
\<close>

definition buildBatch :: "collaborators \<Rightarrow> (nat \<Rightarrow> nat) \<Rightarrow> nat \<Rightarrow> string \<Rightarrow> Challenge \<Rightarrow> error + (string \<times> string) list" where
  "buildBatch ext rd b addr ch = sequenceE (map (candidate ext rd b addr ch) [0..<BATCH_SIZE])"

text \<open>
  The loop over the digests of one answer. \<open>n\<close> is the length of \<^verbatim>\<open>batchData\<close>: reading
  \<^verbatim>\<open>batchData[i]\<close> beyond it and destructuring the result raises a TypeError, which the
  enclosing \<^verbatim>\<open>try\<close> catches. A digest that meets the difficulty and is already in the
  Submitted-Hash Set is skipped.
\<close>

datatype scan = Hit nat string | Miss | ScanTypeError

fun scanHashes :: "(string \<Rightarrow> bool) \<Rightarrow> string set \<Rightarrow> nat \<Rightarrow> nat \<Rightarrow> string list \<Rightarrow> scan" where
  "scanHashes ok submitted n i [] = Miss"
| "scanHashes ok submitted n i (h # hs) =
     (if n \<le> i then ScanTypeError
      else if ok h then
        (if h \<in> submitted then scanHashes ok submitted n (i + 1) hs else Hit i h)
      else scanHashes ok submitted n (i + 1) hs)"

text \<open>
  The branch taken for an accepted digest that is not in the Submitted-Hash Set; the
  function returns after it.
\<close>

definition onSolutionFound ::
  "mine_env \<Rightarrow> DerivedAddress \<Rightarrow> bool \<Rightarrow> string \<Rightarrow> string \<Rightarrow> string \<Rightarrow> string \<Rightarrow> state \<Rightarrow> state" where
  "onSolutionFound env addr isDevFee challengeId nonce hash preimage s =
     (let s1 = s\<lparr>submittedSolutions := insert hash (submittedSolutions s)\<rparr>;
          s2 = s1\<lparr>solvedAddressChallenges :=
                    markSolved (bech32 addr) challengeId (solvedAddressChallenges s1)\<rparr>;
          s3 = emit (SolutionSubmit (bech32 addr) (index addr) challengeId nonce
                       (take 50 preimage @ ''...'')) s2
      in submitSolution (submitNow env) (axiosPost env) addr nonce hash preimage isDevFee s3)"

definition progress :: "DerivedAddress \<Rightarrow> nat \<Rightarrow> state \<Rightarrow> state" where
  "progress addr hashCount s = emit Stats (emit (HashProgress (bech32 addr) (index addr) hashCount) s)"

text \<open>
  The \<^verbatim>\<open>while\<close> loop, one iteration per answer of the hash service; \<open>b\<close> counts the
  batches already made and \<open>hashCount\<close> the digests received. The block that prints a
  sample digest reads \<^verbatim>\<open>hashes[0].slice\<close> when the count equals the length of the answer;
  on an empty first answer that raises into the \<^verbatim>\<open>catch\<close> like the out-of-range read. The result is \<open>None\<close>
  when the loop waits for an answer that never comes, \<open>Some (Inl e, s)\<close> when an error
  leaves the function and \<open>Some (Inr (), s)\<close> when it returns. Only this task runs: no
  other task changes the flags while it waits, and \<open>ch\<close> is the current challenge
  throughout.
\<close>

fun mineLoop ::
  "collaborators \<Rightarrow> mine_env \<Rightarrow> DerivedAddress \<Rightarrow> bool \<Rightarrow> string \<Rightarrow> Challenge \<Rightarrow> nat \<Rightarrow> nat \<Rightarrow>
   hash_result list \<Rightarrow> state \<Rightarrow> ((error + unit) \<times> state) option" where
  "mineLoop ext env addr isDevFee challengeId ch b hashCount [] s =
     (if \<not> (isRunning s \<and> isMining s \<and> currentChallengeId s = Some challengeId)
      then Some (Inr (), s)
      else (case buildBatch ext (rnd env) b (bech32 addr) ch of
              Inl e \<Rightarrow> Some (Inl e, s)
            | Inr batchData \<Rightarrow> None))"
| "mineLoop ext env addr isDevFee challengeId ch b hashCount (r # rs) s =
     (if \<not> (isRunning s \<and> isMining s \<and> currentChallengeId s = Some challengeId)
      then Some (Inr (), s)
      else (case buildBatch ext (rnd env) b (bech32 addr) ch of
              Inl e \<Rightarrow> Some (Inl e, s)
            | Inr batchData \<Rightarrow>
                (case r of
                   HashFailure msg \<Rightarrow>
                     mineLoop ext env addr isDevFee challengeId ch (b + 1) hashCount rs
                       (progress addr hashCount (consoleLog LogBatchError s))
                 | Hashes hashes \<Rightarrow>
                     (let s1 = s\<lparr>totalHashesComputed := totalHashesComputed s + length hashes\<rparr>;
                          hc = hashCount + length hashes
                      in (case (if hc = length hashes \<and> hashes = [] then ScanTypeError
                                else scanHashes (\<lambda>h. matchesDifficulty ext h (difficulty ch))
                                       (submittedSolutions s1) (length batchData) 0 hashes) of
                            Hit i hash \<Rightarrow>
                              Some (Inr (),
                                onSolutionFound env addr isDevFee challengeId
                                  (fst (batchData ! i)) hash (snd (batchData ! i)) s1)
                          | Miss \<Rightarrow>
                              mineLoop ext env addr isDevFee challengeId ch (b + 1) hc rs
                                (progress addr hc s1)
                          | ScanTypeError \<Rightarrow>
                              mineLoop ext env addr isDevFee challengeId ch (b + 1) hc rs
                                (progress addr hc (consoleLog LogBatchError s1)))))))"

definition mineForAddress ::
  "collaborators \<Rightarrow> mine_env \<Rightarrow> DerivedAddress \<Rightarrow> bool \<Rightarrow> state \<Rightarrow> ((error + unit) \<times> state) option" where
  "mineForAddress ext env addr isDevFee s =
     (case currentChallenge s of
        None \<Rightarrow> Some (Inr (), s)
      | Some ch \<Rightarrow>
          (case currentChallengeId s of
             None \<Rightarrow> Some (Inr (), s)
           | Some challengeId \<Rightarrow>
               if challengeId = [] then Some (Inr (), s)
               else if \<not> romReady s then Some (Inr (), consoleLog (LogRomNotReady (index addr)) s)
               else
                 mineLoop ext env addr isDevFee challengeId ch 0 0 (hashBatchAsync env)
                   (emit (MiningStart (bech32 addr) (index addr) challengeId)
                      (s\<lparr>addressesProcessedCurrentChallenge :=
                            insert (index addr) (addressesProcessedCurrentChallenge s)\<rparr>))))"


text \<open>
  The part of \<^verbatim>\<open>mineForAddress\<close> that runs before its first \<^verbatim>\<open>await\<close> (the call of
  \<^verbatim>\<open>hashBatchAsync\<close> in the first iteration): the guards, the entry in the ``addresses
  processed'' set and the \<^verbatim>\<open>mining_start\<close> event. Making the first batch of candidates
  writes nothing to the state.
\<close>

definition mineForAddress_sync :: "DerivedAddress \<Rightarrow> state \<Rightarrow> state" where
  "mineForAddress_sync addr s =
     (case currentChallenge s of
        None \<Rightarrow> s
      | Some ch \<Rightarrow>
          (case currentChallengeId s of
             None \<Rightarrow> s
           | Some challengeId \<Rightarrow>
               if challengeId = [] then s
               else if \<not> romReady s then consoleLog (LogRomNotReady (index addr)) s
               else
                 emit (MiningStart (bech32 addr) (index addr) challengeId)
                   (s\<lparr>addressesProcessedCurrentChallenge :=
                         insert (index addr) (addressesProcessedCurrentChallenge s)\<rparr>)))"

subsection \<open>checkAndMineDevFee\<close>

text \<open>
  What the outside world answers during round \<open>i\<close> of the catch-up loop: the clock at the
  age test of \<^verbatim>\<open>getDevFeeAddress\<close>, the clock when a fetched address is stored, the answer
  of the assignment service, and the answers during the mining of that round.
\<close>

record fee_round_env =
  feeNow :: nat
  feeFetchNow :: nat
  feeFetch :: fetch_result
  feeMine :: mine_env

text \<open>The temporary \<^verbatim>\<open>DerivedAddress\<close> made for the recipient.\<close>

definition devFeeAddr :: "string \<Rightarrow> DerivedAddress" where
  "devFeeAddr a = \<lparr>index = - 1, bech32 = a, publicKeyHex = [], registered = True\<rparr>"

text \<open>
  The loop \<^verbatim>\<open>for (let i = 0; i < devFeesNeeded; i++)\<close> with its \<^verbatim>\<open>try\<close>/\<^verbatim>\<open>catch\<close> around each
  round. The bound is computed once, before the loop.
\<close>

function devFeeRounds ::
  "collaborators \<Rightarrow> (nat \<Rightarrow> fee_round_env) \<Rightarrow> nat \<Rightarrow> nat \<Rightarrow> state \<Rightarrow> state option" where
  "devFeeRounds ext envs devFeesNeeded i s =
     (if i < devFeesNeeded then
        (let s0 = consoleLog (LogDevFeeFetching (i + 1) devFeesNeeded) s
         in (case getDevFeeAddress (feeNow (envs i)) (feeFetchNow (envs i)) (feeFetch (envs i)) (devFee s0) of
               (Inl e, m) \<Rightarrow>
                 devFeeRounds ext envs devFeesNeeded (i + 1)
                   (consoleLog (LogDevFeeFailed (i + 1) devFeesNeeded e) (s0\<lparr>devFee := m\<rparr>))
             | (Inr devFeeAddress, m) \<Rightarrow>
                 (case mineForAddress ext (feeMine (envs i)) (devFeeAddr devFeeAddress) True (s0\<lparr>devFee := m\<rparr>) of
                    None \<Rightarrow> None
                  | Some (Inl e, s1) \<Rightarrow>
                      devFeeRounds ext envs devFeesNeeded (i + 1)
                        (consoleLog (LogDevFeeFailed (i + 1) devFeesNeeded e) s1)
                  | Some (Inr u, s1) \<Rightarrow>
                      devFeeRounds ext envs devFeesNeeded (i + 1)
                        (consoleLog (LogDevFeeCompleted (i + 1) devFeesNeeded) s1))))
      else Some s)"
  by pat_completeness auto
termination
  by (relation "measure (\<lambda>(ext, envs, n, i, s). n - i)") auto

declare devFeeRounds.simps [simp del]

text \<open>
  \<^verbatim>\<open>Math.floor(userSolutionsCount / ratio)\<close> is the quotient of the naturals for a positive
  ratio. For ratio 0 the JavaScript quotient is NaN when the count is 0 (every comparison
  is false and the last branch is taken) and Infinity otherwise (the loop never ends).
\<close>

definition checkAndMineDevFee :: "collaborators \<Rightarrow> (nat \<Rightarrow> fee_round_env) \<Rightarrow> state \<Rightarrow> state option" where
  "checkAndMineDevFee ext envs s =
     (if \<not> isEnabled (devFee s) then Some (consoleLog LogDevFeeDisabled s)
      else
        let ratio = getRatio (devFee s);
            totalDevFeeSolutions = getTotalDevFeeSolutions (devFee s)
        in if ratio = 0 then
             (if userSolutionsCount s = 0 then Some (consoleLog LogDevFeeAhead s) else None)
           else
             let expectedDevFees = userSolutionsCount s div ratio;
                 devFeesNeeded = int expectedDevFees - int totalDevFeeSolutions
             in if devFeesNeeded > 0 then devFeeRounds ext envs (nat devFeesNeeded) 0 s
                else if devFeesNeeded = 0 then Some (consoleLog LogDevFeeUpToDate s)
                else Some (consoleLog LogDevFeeAhead s))"

text \<open>
  The part of \<^verbatim>\<open>checkAndMineDevFee\<close> that runs before its first \<^verbatim>\<open>await\<close>: it only prints.
  With fee solutions owed it stops at the fetch of the recipient of round 1; with ratio 0
  and a positive count the bound of the loop is Infinity.
\<close>

definition checkAndMineDevFee_sync :: "state \<Rightarrow> state" where
  "checkAndMineDevFee_sync s =
     (if \<not> isEnabled (devFee s) then consoleLog LogDevFeeDisabled s
      else
        let ratio = getRatio (devFee s);
            totalDevFeeSolutions = getTotalDevFeeSolutions (devFee s)
        in if ratio = 0 then
             (if userSolutionsCount s = 0 then consoleLog LogDevFeeAhead s
              else consoleLog LogDevFeeFetchingUnbounded s)
           else
             let expectedDevFees = userSolutionsCount s div ratio;
                 devFeesNeeded = int expectedDevFees - int totalDevFeeSolutions
             in if devFeesNeeded > 0 then consoleLog (LogDevFeeFetching 1 (nat devFeesNeeded)) s
                else if devFeesNeeded = 0 then consoleLog LogDevFeeUpToDate s
                else consoleLog LogDevFeeAhead s)"

subsection \<open>startMining, up to its first await\<close>

definition workerThreads :: nat where
  "workerThreads = 10"

text \<open>
  \<^verbatim>\<open>startMining\<close> is called without \<^verbatim>\<open>await\<close>, so it runs inside the call up to its first
  \<^verbatim>\<open>await\<close>. It returns at once when mining is on or no challenge is current; otherwise it
  sets the mining flag, publishes a status event, resets the hash counter and selects the
  registered addresses that have not solved the current challenge. With none to mine it
  clears the flag and returns. Otherwise the first pass of the batch loop either breaks
  (the orchestrator is not running) and goes on to the dev fee check, or calls
  \<^verbatim>\<open>mineForAddress\<close> for each of the first \<open>workerThreads\<close> addresses, in order, each up to
  its own first \<^verbatim>\<open>await\<close>, and waits for them in \<^verbatim>\<open>Promise.all\<close>. \<open>TaskStartMining\<close> stands for
  what remains after that point.
\<close>

definition startMining_sync :: "state \<Rightarrow> state" where
  "startMining_sync s =
     (if isMining s then s
      else (case currentChallenge s of
        None \<Rightarrow> s
      | Some ch \<Rightarrow>
          (case currentChallengeId s of
             None \<Rightarrow> s
           | Some currentId \<Rightarrow>
               if currentId = [] then s
               else
                 let s1 = s\<lparr>isMining := True\<rparr>;
                     s2 = emit (Status True (Some currentId)) s1;
                     s3 = s2\<lparr>totalHashesComputed := 0\<rparr>;
                     registeredAddresses = filter (\<lambda>a. registered a) (addresses s3);
                     addressesToMine =
                       filter (\<lambda>a. \<not> isSolved (solvedAddressChallenges s3) (bech32 a) currentId)
                         registeredAddresses
                 in if length addressesToMine = 0 then s3\<lparr>isMining := False\<rparr>
                    else if \<not> isRunning s3 then spawn TaskStartMining (checkAndMineDevFee_sync s3)
                    else
                      spawn TaskStartMining
                        (foldl (\<lambda>t addr. mineForAddress_sync addr t) s3
                           (take workerThreads addressesToMine)))))"

subsection \<open>stop, pollAndMine\<close>

definition stop :: "state \<Rightarrow> state" where
  "stop s = emit (Status False None) (s\<lparr>isRunning := False, pollTimer := False\<rparr>)"

text \<open>
  What the outside world answers during one poll: the result of \<^verbatim>\<open>fetchChallenge\<close>, and
  for \<^verbatim>\<open>hashEngine.initRom(noPreMine)\<close> either a rejection or the time in milliseconds
  after which \<^verbatim>\<open>isRomReady()\<close> becomes true (\<open>None\<close>: never).
\<close>

record poll_env =
  fetchChallenge :: "error + ChallengeResponse"
  initRom :: "bool \<Rightarrow> error + nat option"

definition isRomReadyAt :: "nat option \<Rightarrow> nat \<Rightarrow> bool" where
  "isRomReadyAt readyAfter elapsed = (case readyAfter of None \<Rightarrow> False | Some d \<Rightarrow> d \<le> elapsed)"

text \<open>
  The readiness loop: \<^verbatim>\<open>while (!isRomReady() && Date.now() - startWait < maxWait) sleep(500)\<close>,
  with each sleep taking its 500 ms; the result is the time waited.
\<close>

function waitRom :: "nat option \<Rightarrow> nat \<Rightarrow> nat" where
  "waitRom readyAfter elapsed =
     (if \<not> isRomReadyAt readyAfter elapsed \<and> elapsed < 60000
      then waitRom readyAfter (elapsed + 500) else elapsed)"
  by pat_completeness auto
termination
  by (relation "measure (\<lambda>(r, elapsed). 60000 - elapsed)") auto

declare waitRom.simps [simp del]

definition pollAndMine :: "poll_env \<Rightarrow> state \<Rightarrow> (error + unit) \<times> state" where
  "pollAndMine env s =
     (case fetchChallenge env of
        Inl e \<Rightarrow> (Inl e, s)
      | Inr resp \<Rightarrow>
          (case code resp of
             CodeBefore \<Rightarrow> (Inr (), s)
           | CodeAfter \<Rightarrow> (Inr (), stop s)
           | CodeActive \<Rightarrow>
               (case challenge resp of
                  None \<Rightarrow> (Inr (), s)
                | Some ch \<Rightarrow>
                    if Some (challenge_id ch) = currentChallengeId s then (Inr (), s)
                    else
                      let s1 = (if isMining s then s\<lparr>isMining := False\<rparr> else s);
                          s2 = s1\<lparr>addressesProcessedCurrentChallenge := {}\<rparr>;
                          s3 = s2\<lparr>submittedSolutions := {}\<rparr>
                      in (case initRom env (no_pre_mine ch) of
                            Inl e \<Rightarrow> (Inl e, s3)
                          | Inr readyAfter \<Rightarrow>
                              (let ready = isRomReadyAt readyAfter (waitRom readyAfter 0);
                                   s4 = s3\<lparr>romReady := ready\<rparr>
                               in if \<not> ready then (Inl RomInitTimeout, s4)
                                  else
                                    let s5 = s4\<lparr>currentChallengeId := Some (challenge_id ch),
                                                 currentChallenge := Some ch\<rparr>;
                                        s6 = emit (Status True (Some (challenge_id ch))) s5
                                    in (Inr (), if \<not> isMining s6 then startMining_sync s6 else s6))))))"

subsection \<open>start\<close>

text \<open>
  What the outside world answers during \<^verbatim>\<open>start\<close>: the result of \<^verbatim>\<open>loadWallet(password)\<close>,
  the result of reading the receipt journal, whether the registration calls for an
  address succeed, and the clock.
\<close>

record start_env =
  loadWallet :: "error + DerivedAddress list"
  readReceipts :: "error + Receipt list"
  registerOk :: "DerivedAddress \<Rightarrow> bool"
  startNow :: nat

text \<open>
  \<^verbatim>\<open>ensureAddressesRegistered\<close>: the loop visits the unregistered addresses in order and
  sets \<^verbatim>\<open>registered\<close> on the address object itself; a failed registration is caught and
  published. \<open>cnt\<close> is \<^verbatim>\<open>registeredCount\<close>.
\<close>

fun registerLoop :: "(DerivedAddress \<Rightarrow> bool) \<Rightarrow> nat \<Rightarrow> nat \<Rightarrow> DerivedAddress list \<Rightarrow> DerivedAddress list \<times> MiningEvent list" where
  "registerLoop ok totalToRegister cnt [] = ([], [])"
| "registerLoop ok totalToRegister cnt (a # rest) =
     (if registered a then
        (case registerLoop ok totalToRegister cnt rest of (rest', evs) \<Rightarrow> (a # rest', evs))
      else if ok a then
        (case registerLoop ok totalToRegister (cnt + 1) rest of
           (rest', evs) \<Rightarrow>
             (a\<lparr>registered := True\<rparr> # rest',
              RegistrationProgress (index a) (bech32 a) cnt totalToRegister False #
              RegistrationProgress (index a) (bech32 a) (cnt + 1) totalToRegister True # evs))
      else
        (case registerLoop ok totalToRegister cnt rest of
           (rest', evs) \<Rightarrow>
             (a # rest',
              RegistrationProgress (index a) (bech32 a) cnt totalToRegister False #
              RegistrationProgress (index a) (bech32 a) cnt totalToRegister False # evs)))"

definition ensureAddressesRegistered :: "(DerivedAddress \<Rightarrow> bool) \<Rightarrow> state \<Rightarrow> state" where
  "ensureAddressesRegistered ok s =
     (let unregistered = filter (\<lambda>a. \<not> registered a) (addresses s)
      in if length unregistered = 0 then s
         else (case registerLoop (\<lambda>a. walletManager s \<and> ok a) (length unregistered) 0 (addresses s) of
                 (as', evs) \<Rightarrow> s\<lparr>addresses := as', trace := trace s @ map Emit evs\<rparr>))"

definition start :: "start_env \<Rightarrow> state \<Rightarrow> (error + unit) \<times> state" where
  "start env s =
     (if isRunning s then (Inr (), consoleLog LogAlreadyRunning s)
      else
        let s1 = s\<lparr>walletManager := True\<rparr>
        in (case loadWallet env of
              Inl e \<Rightarrow> (Inl e, s1)
            | Inr addrs \<Rightarrow>
                (let s2 = s1\<lparr>addresses := addrs\<rparr>;
                     s3 = loadSubmittedSolutions (readReceipts env) s2;
                     s4 = ensureAddressesRegistered (registerOk env) s3;
                     s5 = s4\<lparr>isRunning := True, startTime := Some (startNow env), solutionsFound := 0\<rparr>;
                     s6 = spawn TaskPollLoop s5
                 in (Inr (), emit (Status True (currentChallengeId s6)) s6))))"

section \<open>Observations on states and traces\<close>

text \<open>The (identity, challenge id) pairs recorded in a Solved-Pairs map.\<close>

definition solvedPairs :: "(string \<rightharpoonup> string set) \<Rightarrow> (string \<times> string) set" where
  "solvedPairs m = {(a, c). isSolved m a c}"

text \<open>The age test of \<^verbatim>\<open>getDevFeeAddress\<close>: a cached address less than one hour old.\<close>

definition isFresh :: "nat \<Rightarrow> DevFeeManager \<Rightarrow> bool" where
  "isFresh now m =
     (case currentAddress (cache m) of
        None \<Rightarrow> False
      | Some ca \<Rightarrow> int now - int (fetchedAt ca) < ONE_HOUR)"

text \<open>Counting the network submissions of a trace, all of them or those for one pair.\<close>

fun isPost :: "action \<Rightarrow> bool" where
  "isPost (Post a c n) = True"
| "isPost (Emit e) = False"

fun isPostFor :: "string \<Rightarrow> string \<Rightarrow> action \<Rightarrow> bool" where
  "isPostFor a c (Post a' c' n) = (a = a' \<and> c = c')"
| "isPostFor a c (Emit e) = False"

definition submissions :: "action list \<Rightarrow> nat" where
  "submissions tr = length (filter isPost tr)"

definition submissionsFor :: "string \<Rightarrow> string \<Rightarrow> action list \<Rightarrow> nat" where
  "submissionsFor a c tr = length (filter (isPostFor a c) tr)"

text \<open>Counting the rounds of the dev fee loop that were started, by their first console line.\<close>

fun isRoundStart :: "log_line \<Rightarrow> bool" where
  "isRoundStart (LogDevFeeFetching i n) = True"
| "isRoundStart l = False"

definition roundsStarted :: "log_line list \<Rightarrow> nat" where
  "roundsStarted ls = length (filter isRoundStart ls)"

text \<open>
  How far a state \<open>s'\<close> may lie from \<open>s\<close> after fee-flagged work with at most \<open>k\<close>
  submissions: at most \<open>k\<close> more network submissions, the user-solutions counter and the
  dev fee configuration untouched, the count of fee solutions paid raised by at most \<open>k\<close>
  and never lowered, and no new round of the dev fee loop on the console.
\<close>

definition withinFee :: "nat \<Rightarrow> state \<Rightarrow> state \<Rightarrow> bool" where
  "withinFee k s s' =
     (submissions (trace s') \<le> submissions (trace s) + k
      \<and> userSolutionsCount s' = userSolutionsCount s
      \<and> config (devFee s') = config (devFee s)
      \<and> getTotalDevFeeSolutions (devFee s) \<le> getTotalDevFeeSolutions (devFee s')
      \<and> getTotalDevFeeSolutions (devFee s') \<le> getTotalDevFeeSolutions (devFee s) + k
      \<and> roundsStarted (console s') = roundsStarted (console s))"

text \<open>
  The same for \<open>k\<close> rounds of the dev fee loop: exactly \<open>k\<close> rounds were started.
\<close>

definition afterFeeRounds :: "nat \<Rightarrow> state \<Rightarrow> state \<Rightarrow> bool" where
  "afterFeeRounds k s s' =
     (roundsStarted (console s') = roundsStarted (console s) + k
      \<and> submissions (trace s') \<le> submissions (trace s) + k
      \<and> userSolutionsCount s' = userSolutionsCount s
      \<and> config (devFee s') = config (devFee s)
      \<and> getTotalDevFeeSolutions (devFee s) \<le> getTotalDevFeeSolutions (devFee s')
      \<and> getTotalDevFeeSolutions (devFee s') \<le> getTotalDevFeeSolutions (devFee s) + k)"

text \<open>
  A state in which a call of \<^verbatim>\<open>mineForAddress\<close> enters its loop and a found solution reaches
  the network: running, mining, a challenge current, the wallet manager present, the ROM
  ready.
\<close>

definition readyToMine :: "state \<Rightarrow> bool" where
  "readyToMine s =
     (isRunning s \<and> isMining s \<and> currentChallenge s \<noteq> None \<and> truthy (currentChallengeId s)
      \<and> walletManager s \<and> romReady s)"

text \<open>
  A round of the dev fee loop that goes well, seen from the state \<open>s\<close> in which the catch-up
  starts: the assignment service answers with a valid address, the first answer of the
  hash service holds a digest that meets the difficulty of the current challenge, the
  first such digest (within the first \<open>BATCH_SIZE\<close> positions) is not in the Submitted-Hash
  Set, and the submission is answered with a 2xx status. The rounds of a catch-up go well
  together when each does and their digests differ from one another.
\<close>

definition firstBatch :: "mine_env \<Rightarrow> string list" where
  "firstBatch env =
     (case hashBatchAsync env of
        [] \<Rightarrow> []
      | r # later \<Rightarrow> (case r of Hashes hs \<Rightarrow> hs | HashFailure msg \<Rightarrow> []))"

definition accepted :: "collaborators \<Rightarrow> state \<Rightarrow> string \<Rightarrow> bool" where
  "accepted ext s h =
     (case currentChallenge s of
        None \<Rightarrow> False
      | Some ch \<Rightarrow> matchesDifficulty ext h (difficulty ch))"

definition roundDigest :: "collaborators \<Rightarrow> state \<Rightarrow> fee_round_env \<Rightarrow> string option" where
  "roundDigest ext s e = find (accepted ext s) (firstBatch (feeMine e))"

definition feeRoundSucceeds :: "collaborators \<Rightarrow> state \<Rightarrow> fee_round_env \<Rightarrow> bool" where
  "feeRoundSucceeds ext s e =
     ((case fetchAttempt (feeFetch e) of Inl msg \<Rightarrow> False | Inr x \<Rightarrow> True)
      \<and> (case roundDigest ext s e of None \<Rightarrow> False | Some h \<Rightarrow> h \<notin> submittedSolutions s)
      \<and> length (takeWhile (\<lambda>h. \<not> accepted ext s h) (firstBatch (feeMine e))) < BATCH_SIZE
      \<and> (case postOutcome (axiosPost (feeMine e)) of Inl err \<Rightarrow> False | Inr crypto \<Rightarrow> True))"

definition feeRoundsSucceed :: "collaborators \<Rightarrow> state \<Rightarrow> (nat \<Rightarrow> fee_round_env) \<Rightarrow> nat \<Rightarrow> bool" where
  "feeRoundsSucceed ext s envs n =
     (\<forall>i<n. feeRoundSucceeds ext s (envs i)
             \<and> (\<forall>j<i. roundDigest ext s (envs j) \<noteq> roundDigest ext s (envs i)))"

text \<open>The receipts of fee solutions in a journal.\<close>

definition feeReceipts :: "Receipt list \<Rightarrow> Receipt list" where
  "feeReceipts rs = filter (\<lambda>r. r_isDevFee r) rs"

text \<open>The value of candidate \<open>i\<close> of batch \<open>b\<close>: its nonce and its preimage.\<close>

definition nonceAt :: "(nat \<Rightarrow> nat) \<Rightarrow> nat \<Rightarrow> nat \<Rightarrow> string" where
  "nonceAt rd b i = ''00'' @ concat (map (\<lambda>j. byteHex (rd (7 * (b * BATCH_SIZE + i) + j) mod 256)) [0..<7])"

definition candidateAt :: "collaborators \<Rightarrow> (nat \<Rightarrow> nat) \<Rightarrow> nat \<Rightarrow> string \<Rightarrow> Challenge \<Rightarrow> nat \<Rightarrow> string \<times> string" where
  "candidateAt ext rd b addr ch i = (nonceAt rd b i, buildPreimage ext (nonceAt rd b i) addr ch)"

section \<open>Example inputs\<close>

text \<open>Concrete collaborators, challenges, states and answers at which the results below are evaluated.\<close>

definition exCollaborators :: collaborators where
  "exCollaborators =
     \<lparr>matchesDifficulty = (\<lambda>h d. startsWith h ''00''),
      buildPreimage = (\<lambda>n a c. n @ a @ challenge_id c)\<rparr>"

definition exChallenge :: Challenge where
  "exChallenge = \<lparr>challenge_id = ''c1'', difficulty = ''00ff'', no_pre_mine = False\<rparr>"

definition exChallenge2 :: Challenge where
  "exChallenge2 = \<lparr>challenge_id = ''c2'', difficulty = ''00ff'', no_pre_mine = True\<rparr>"

text \<open>
  A running orchestrator that is mining challenge \<open>c1\<close>, with 50 user solutions counted
  and the dev fee manager as its constructor leaves it.
\<close>

definition exState :: state where
  "exState =
     \<lparr>isRunning = True, currentChallengeId = Some ''c1'', pollTimer = True,
      walletManager = True, addresses = [], solutionsFound = 0, startTime = Some 0,
      isMining = True, currentChallenge = Some exChallenge, totalHashesComputed = 0,
      addressesProcessedCurrentChallenge = {}, solutionTimestamps = [],
      submittedSolutions = {}, solvedAddressChallenges = Map.empty,
      userSolutionsCount = 50, devFee = devFeeManager ''/app'' ''desktop-1'',
      romReady = True, receipts = [], errors = [], trace = [], console = [], spawned = []\<rparr>"

text \<open>A poll that observes the active challenge \<open>c2\<close>, with a ROM that is ready at once.\<close>

definition exPoll :: poll_env where
  "exPoll =
     \<lparr>fetchChallenge = Inr \<lparr>code = CodeActive, challenge = Some exChallenge2, starts_at = None\<rparr>,
      initRom = (\<lambda>noPreMine. Inr (Some 0))\<rparr>"

definition exAddress :: DerivedAddress where
  "exAddress = \<lparr>index = 0, bech32 = ''addr1user'', publicKeyHex = ''ab'', registered = True\<rparr>"

definition exUserReceipt :: Receipt where
  "exUserReceipt =
     \<lparr>r_ts = 1, r_address = ''addr1user'', r_challenge_id = ''c0'', r_nonce = ''0000000000000001'',
      r_hash = ''00aa'', r_crypto_receipt = None, r_isDevFee = False\<rparr>"

definition exFeeReceipt :: Receipt where
  "exFeeReceipt =
     \<lparr>r_ts = 2, r_address = ''addr1dev'', r_challenge_id = ''c0'', r_nonce = ''0000000000000002'',
      r_hash = ''00bb'', r_crypto_receipt = None, r_isDevFee = True\<rparr>"

definition exStart :: start_env where
  "exStart =
     \<lparr>loadWallet = Inr [exAddress], readReceipts = Inr [exUserReceipt, exFeeReceipt],
      registerOk = (\<lambda>a. True), startNow = 5\<rparr>"

text \<open>
  Answers for a catch-up of two rounds in which every call succeeds: the assignment
  service returns the same recipient, each mining finds an accepted digest in its first
  batch, and each submission is answered with status 200.
\<close>

definition exFeeRounds :: "nat \<Rightarrow> fee_round_env" where
  "exFeeRounds i =
     \<lparr>feeNow = 1000 + i, feeFetchNow = 1001 + i, feeFetch = FetchOk ''addr1dev'' 7 True,
      feeMine = \<lparr>rnd = (\<lambda>k. i), hashBatchAsync = [Hashes [''ff11'', (if i = 0 then ''00aa'' else ''00bb'')]],
                 axiosPost = HttpResponse 200 ''OK'' None, submitNow = 2000 + i\<rparr>\<rparr>"

text \<open>
  Answers for a catch-up of two rounds in which the first round fails: the assignment
  service is unreachable in round 1 and answers in round 2.
\<close>

definition exFeeRoundsFail :: "nat \<Rightarrow> fee_round_env" where
  "exFeeRoundsFail i =
     \<lparr>feeNow = 1000 + i, feeFetchNow = 1001 + i,
      feeFetch = (if i = 0 then FetchFail ''timeout'' else FetchOk ''addr1dev'' 7 True),
      feeMine = \<lparr>rnd = (\<lambda>k. i), hashBatchAsync = [Hashes [''ff11'', ''00bb'']],
                 axiosPost = HttpResponse 200 ''OK'' None, submitNow = 2000 + i\<rparr>\<rparr>"

text \<open>A dev fee manager built with \<^verbatim>\<open>enabled: false\<close>.\<close>

definition exDisabledManager :: DevFeeManager where
  "exDisabledManager = DevFeeManager_new (noOverrides\<lparr>p_enabled := Some False\<rparr>) ''/app'' ''desktop-1''"

text \<open>
  The running orchestrator with one address processed, one hash submitted and one pair
  solved under challenge \<open>c1\<close>.
\<close>

definition exBusy :: state where
  "exBusy =
     exState\<lparr>addressesProcessedCurrentChallenge := {0}, submittedSolutions := {''00aa''},
             solvedAddressChallenges := [''addr1user'' \<mapsto> {''c1''}]\<rparr>"

text \<open>
  The same orchestrator with a wallet of one registered and one unregistered address,
  and a stale entry in the ``addresses processed'' set.
\<close>

definition exUnregistered :: DerivedAddress where
  "exUnregistered = \<lparr>index = 1, bech32 = ''addr1new'', publicKeyHex = ''cd'', registered = False\<rparr>"

definition exBusyWallet :: state where
  "exBusyWallet =
     exBusy\<lparr>addresses := [exAddress, exUnregistered], addressesProcessedCurrentChallenge := {5}\<rparr>"

text \<open>Answers for a mining in which the submission is answered with status 409.\<close>

definition exRejected :: mine_env where
  "exRejected =
     \<lparr>rnd = (\<lambda>k. 0), hashBatchAsync = [Hashes [''00aa'']],
      axiosPost = HttpResponse 409 ''Conflict'' None, submitNow = 2000\<rparr>"

text \<open>
  The singleton dev fee manager after one successful fetch at time 0: it holds a cached
  recipient.
\<close>

definition exCachedManager :: DevFeeManager where
  "exCachedManager =
     snd (fetchDevFeeAddress 0 (FetchOk ''addr1old'' 3 False) (devFeeManager ''/app'' ''desktop-1''))"

section \<open>Nonce encoding: results\<close>

lemma hexDigit_hex: "hexDigit d \<in> set hexDigits"
  unfolding hexDigit_def by (rule nth_mem) (simp add: hexDigits_def)

lemma toString16_hex: "isHexString (toString16 n)"
proof (induction n rule: toString16.induct)
  case (1 n)
  show ?case
  proof (cases "n < 16")
    case True
    then show ?thesis by (subst toString16.simps) (simp add: isHexString_def hexDigit_hex)
  next
    case False
    with 1 have "isHexString (toString16 (n div 16))" by simp
    with False show ?thesis
      by (subst toString16.simps) (simp add: isHexString_def hexDigit_hex)
  qed
qed

lemma toString16_length: "0 < k \<Longrightarrow> n < 16 ^ k \<Longrightarrow> length (toString16 n) \<le> k"
proof (induction k arbitrary: n)
  case 0
  then show ?case by simp
next
  case (Suc k)
  show ?case
  proof (cases "n < 16")
    case True
    then show ?thesis by (subst toString16.simps) simp
  next
    case False
    with Suc.prems have k: "0 < k" by (cases k) auto
    from Suc.prems have "n div 16 < 16 ^ k"
      by (simp add: less_mult_imp_div_less mult.commute)
    with Suc.IH k have "length (toString16 (n div 16)) \<le> k" by blast
    with False show ?thesis by (subst toString16.simps) simp
  qed
qed

lemma padStart_length: "length (padStart k c s) = max k (length s)"
  by (simp add: padStart_def)

lemma zero_hex: "CHR ''0'' \<in> set hexDigits"
  by (simp add: hexDigits_def)

lemma padStart_hex: "isHexString s \<Longrightarrow> isHexString (padStart k (CHR ''0'') s)"
  by (auto simp: padStart_def isHexString_def list_all_iff zero_hex)

lemma numberToNonce_length: "num < 2 ^ 64 \<Longrightarrow> length (numberToNonce num) = 16"
proof -
  assume "num < 2 ^ 64"
  then have "num < 16 ^ 16" by simp
  then have "length (toString16 num) \<le> 16" by (intro toString16_length) simp_all
  then show ?thesis by (simp add: numberToNonce_def padStart_length)
qed

lemma numberToNonce_hex: "isHexString (numberToNonce num)"
  by (simp add: numberToNonce_def padStart_hex toString16_hex)

lemma byteHex_length: "b < 256 \<Longrightarrow> length (byteHex b) = 2"
proof -
  assume "b < 256"
  then have "b < 16 ^ 2" by simp
  then have "length (toString16 b) \<le> 2" by (intro toString16_length) simp_all
  then show ?thesis by (simp add: byteHex_def padStart_length)
qed

lemma byteHex_hex: "isHexString (byteHex b)"
  by (simp add: byteHex_def padStart_hex toString16_hex)

lemma workerId_byte: "nat (workerId AND 255) < 256"
proof -
  have "workerId AND 255 \<le> 255" by (rule AND_upper2) simp
  then show ?thesis by linarith
qed

lemma nonceBytes_bound: "\<forall>b \<in> set (nonceBytes workerId rd). b < 256"
  by (auto simp: nonceBytes_def workerId_byte)

lemma nonceBytes_length: "length (nonceBytes workerId rd) = 8"
  by (simp add: nonceBytes_def)

lemma concat_const_length:
  "\<forall>x \<in> set xs. length (f x) = k \<Longrightarrow> length (concat (map f xs)) = k * length xs"
  by (induction xs) auto

lemma nonce_text_length: "length (concat (map byteHex (nonceBytes workerId rd))) = 16"
  using concat_const_length [of "nonceBytes workerId rd" byteHex 2]
  by (simp add: nonceBytes_bound byteHex_length nonceBytes_length)

lemma nonce_text_hex: "isHexString (concat (map byteHex bs))"
  using byteHex_hex by (induction bs) (auto simp: isHexString_def)

text \<open>The length guard of \<^verbatim>\<open>generateNonce\<close> never fires.\<close>

lemma generateNonce_Inr:
  "generateNonce workerId rd = Inr (concat (map byteHex (nonceBytes workerId rd)))"
  by (simp add: generateNonce_def nonce_text_length)

text \<open>
  Claim C7. For every number \<open>num\<close> with \<open>0 \<le> num < 2^64\<close>, \<^verbatim>\<open>numberToNonce(num)\<close> is a string
  of exactly 16 lowercase hexadecimal characters; and for every worker id and every
  sequence of random draws, \<^verbatim>\<open>generateNonce\<close> either raises or returns a string of exactly
  16 hexadecimal characters.
\<close>

theorem numberToNonce_generateNonce_sixteen_hex:
  "(num < 2 ^ 64 \<longrightarrow> length (numberToNonce num) = 16 \<and> isHexString (numberToNonce num))
   \<and> (case generateNonce workerId rd of
         Inl e \<Rightarrow> True
       | Inr n \<Rightarrow> length n = 16 \<and> isHexString n)"
  by (simp add: numberToNonce_length numberToNonce_hex generateNonce_Inr nonce_text_length
        nonce_text_hex)

theorem numberToNonce_generateNonce_sixteen_hex_witness:
  "(255::nat) < 2 ^ 64
   \<and> numberToNonce 255 = ''00000000000000ff''
   \<and> length (numberToNonce 255) = 16 \<and> isHexString (numberToNonce 255)
   \<and> generateNonce 3 (\<lambda>i. i * 40) = Inr ''0300285078a0c8f0''"
proof -
  have a: "numberToNonce 255 = ''00000000000000ff''" by code_simp
  have b: "generateNonce 3 (\<lambda>i. i * 40) = Inr ''0300285078a0c8f0''" by code_simp
  show ?thesis
    using numberToNonce_generateNonce_sixteen_hex [of 255 3 "\<lambda>i. i * 40"] a b by simp
qed

lemma upt_1_8: "[1..<8] = [1, 2, 3, 4, 5, 6, 7::nat]"
  by code_simp

lemma upt_0_7: "[0..<7] = [0, 1, 2, 3, 4, 5, 6::nat]"
  by code_simp

lemma byteHex_0: "byteHex 0 = ''00''"
  by code_simp

lemma draws_shift:
  "map (\<lambda>i. rd (i - 1) mod 256) [1..<8] = map (\<lambda>j. (rd j mod 256 :: nat)) [0..<7]"
  unfolding upt_1_8 upt_0_7 by simp

lemma generateNonce_default_eq:
  "generateNonce_default rd = Inr (''00'' @ concat (map (\<lambda>j. byteHex (rd j mod 256)) [0..<7]))"
proof -
  have "nonceBytes 0 rd = 0 # map (\<lambda>j. rd j mod 256) [0..<7]"
    unfolding nonceBytes_def draws_shift by simp
  then show ?thesis
    by (simp add: generateNonce_default_def generateNonce_Inr byteHex_0 comp_def)
qed

lemma default_nonce_length:
  "length (''00'' @ concat (map (\<lambda>j. byteHex (rd j mod 256)) [0..<7])) = 16"
proof -
  have "Inr (''00'' @ concat (map (\<lambda>j. byteHex (rd j mod 256)) [0..<7])) = generateNonce 0 rd"
    using generateNonce_default_eq [of rd] by (simp add: generateNonce_default_def)
  then have "''00'' @ concat (map (\<lambda>j. byteHex (rd j mod 256)) [0..<7])
      = concat (map byteHex (nonceBytes 0 rd))"
    by (simp only: generateNonce_Inr sum.inject)
  then show ?thesis by (simp only: nonce_text_length)
qed

text \<open>
  Claim C8. The per-identity miner calls \<^verbatim>\<open>generateNonce()\<close> with the default worker id 0,
  and \<^verbatim>\<open>generateNonce\<close> fixes the first byte to the worker id: every candidate made during
  mining has a 16-character nonce that begins with \<^verbatim>\<open>00\<close>, and the 14 characters after it
  are the hexadecimal form of the seven random bytes (56 bits), so the nonce is not a
  uniformly drawn 64-bit value.
\<close>

theorem miner_nonce_prefix_00:
  "\<exists>n. candidate ext rd b addr ch i = Inr (n, buildPreimage ext n addr ch)
       \<and> length n = 16 \<and> take 2 n = ''00''
       \<and> drop 2 n = concat (map (\<lambda>j. byteHex (rd (7 * (b * BATCH_SIZE + i) + j) mod 256)) [0..<7])"
  using default_nonce_length [of "\<lambda>j. rd (7 * (b * BATCH_SIZE + i) + j)"]
  by (simp add: candidate_def generateNonce_default_eq)

theorem miner_nonce_prefix_00_witness:
  "candidate exCollaborators (\<lambda>k. 255) 0 ''addr1q'' exChallenge 0
     = Inr (''00ffffffffffffff'', ''00ffffffffffffffaddr1qc1'')
   \<and> (\<exists>n. candidate exCollaborators (\<lambda>k. 255) 0 ''addr1q'' exChallenge 0
             = Inr (n, buildPreimage exCollaborators n ''addr1q'' exChallenge)
          \<and> length n = 16 \<and> take 2 n = ''00''
          \<and> drop 2 n = concat (map (\<lambda>j. byteHex ((\<lambda>k. 255) (7 * (0 * BATCH_SIZE + 0) + j) mod 256)) [0..<7]))"
proof -
  have "candidate exCollaborators (\<lambda>k. 255) 0 ''addr1q'' exChallenge 0
     = Inr (''00ffffffffffffff'', ''00ffffffffffffffaddr1qc1'')"
    by code_simp
  then show ?thesis
    using miner_nonce_prefix_00 [of exCollaborators "\<lambda>k. 255" 0 "''addr1q''" exChallenge 0]
    by blast
qed

section \<open>Challenge poller: the new-challenge transition\<close>

text \<open>
  Claim C1 as stated: during the new-challenge transition only the per-challenge
  ``addresses processed'' set is cleared and the Submitted-Hash Set is left unchanged.
  The code clears both (\<^verbatim>\<open>this.submittedSolutions.clear()\<close>, commented ``Clear submitted
  solutions for new challenge''): a poll that moves the orchestrator from challenge \<open>c1\<close>
  to \<open>c2\<close> succeeds and the hash submitted under \<open>c1\<close> is no longer recorded.
\<close>

theorem new_challenge_keeps_submitted_hashes_counterexample:
  "''00aa'' \<in> submittedSolutions exBusy
   \<and> currentChallengeId exBusy = Some ''c1''
   \<and> fst (pollAndMine exPoll exBusy) = Inr ()
   \<and> currentChallengeId (snd (pollAndMine exPoll exBusy)) = Some ''c2''
   \<and> ''00aa'' \<notin> submittedSolutions (snd (pollAndMine exPoll exBusy))"
  by (simp add: pollAndMine_def exPoll_def exBusy_def exState_def exChallenge2_def
        waitRom.simps isRomReadyAt_def emit_def spawn_def startMining_sync_def)

text \<open>
  The part of \<^verbatim>\<open>startMining\<close> that runs inside the transition writes neither to the
  Submitted-Hash Set nor to the Solved-Pairs map; to the ``addresses processed'' set it
  adds the indexes of the addresses whose mining it starts.
\<close>

lemma sync_fold:
  assumes "currentChallenge t = Some ch" and "currentChallengeId t = Some cid" and "cid \<noteq> []"
    and "romReady t"
  shows "addressesProcessedCurrentChallenge (foldl (\<lambda>t addr. mineForAddress_sync addr t) t as)
           = addressesProcessedCurrentChallenge t \<union> index ` set as
       \<and> submittedSolutions (foldl (\<lambda>t addr. mineForAddress_sync addr t) t as) = submittedSolutions t
       \<and> solvedAddressChallenges (foldl (\<lambda>t addr. mineForAddress_sync addr t) t as)
           = solvedAddressChallenges t"
  using assms
proof (induction as arbitrary: t)
  case Nil
  then show ?case by simp
next
  case (Cons a as)
  let ?u = "mineForAddress_sync a t"
  have u: "?u = emit (MiningStart (bech32 a) (index a) cid)
      (t\<lparr>addressesProcessedCurrentChallenge := insert (index a) (addressesProcessedCurrentChallenge t)\<rparr>)"
    using Cons.prems by (simp add: mineForAddress_sync_def)
  have "currentChallenge ?u = Some ch" "currentChallengeId ?u = Some cid" "romReady ?u"
    using Cons.prems by (simp_all add: u emit_def)
  from Cons.IH [OF this(1,2) Cons.prems(3) this(3)] show ?case
    by (simp add: u emit_def)
qed

lemma checkAndMineDevFee_sync_fields:
  "addressesProcessedCurrentChallenge (checkAndMineDevFee_sync s) = addressesProcessedCurrentChallenge s"
  "submittedSolutions (checkAndMineDevFee_sync s) = submittedSolutions s"
  "solvedAddressChallenges (checkAndMineDevFee_sync s) = solvedAddressChallenges s"
  by (simp_all add: checkAndMineDevFee_sync_def consoleLog_def Let_def)

lemma startMining_sync_fields:
  assumes "\<not> isMining s" and "currentChallenge s = Some ch" and "currentChallengeId s = Some cid"
    and "romReady s"
  shows "submittedSolutions (startMining_sync s) = submittedSolutions s"
    and "solvedAddressChallenges (startMining_sync s) = solvedAddressChallenges s"
    and "addressesProcessedCurrentChallenge (startMining_sync s)
           = (if isRunning s \<and> cid \<noteq> []
              then addressesProcessedCurrentChallenge s \<union>
                index ` set (take workerThreads
                  (filter (\<lambda>a. registered a \<and> \<not> isSolved (solvedAddressChallenges s) (bech32 a) cid) (addresses s)))
              else addressesProcessedCurrentChallenge s)"
proof -
  let ?s3 = "(emit (Status True (Some cid)) (s\<lparr>isMining := True\<rparr>))\<lparr>totalHashesComputed := 0\<rparr>"
  let ?am = "filter (\<lambda>a. registered a \<and> \<not> isSolved (solvedAddressChallenges s) (bech32 a) cid) (addresses s)"
  have am: "filter (\<lambda>a. \<not> isSolved (solvedAddressChallenges ?s3) (bech32 a) cid)
      (filter (\<lambda>a. registered a) (addresses ?s3)) = ?am"
    by (simp add: emit_def conj_commute)
  have f: "currentChallenge ?s3 = Some ch" "currentChallengeId ?s3 = Some cid" "romReady ?s3"
    using assms by (simp_all add: emit_def)
  have b: "addressesProcessedCurrentChallenge ?s3 = addressesProcessedCurrentChallenge s"
    "submittedSolutions ?s3 = submittedSolutions s"
    "solvedAddressChallenges ?s3 = solvedAddressChallenges s" "isRunning ?s3 = isRunning s"
    by (simp_all add: emit_def)
  have k: "addresses (emit (Status True (Some cid)) (s\<lparr>isMining := True\<rparr>)) = addresses s"
    "solvedAddressChallenges (emit (Status True (Some cid)) (s\<lparr>isMining := True\<rparr>))
       = solvedAddressChallenges s"
    "isRunning (emit (Status True (Some cid)) (s\<lparr>isMining := True\<rparr>)) = isRunning s"
    by (simp_all add: emit_def)
  have eq: "startMining_sync s =
     (if cid = [] then s
      else if ?am = [] then ?s3\<lparr>isMining := False\<rparr>
      else if \<not> isRunning s then spawn TaskStartMining (checkAndMineDevFee_sync ?s3)
      else spawn TaskStartMining (foldl (\<lambda>t addr. mineForAddress_sync addr t) ?s3 (take workerThreads ?am)))"
    using assms(1-3) by (simp add: startMining_sync_def Let_def k)
  show "submittedSolutions (startMining_sync s) = submittedSolutions s"
    unfolding eq using sync_fold [OF f(1,2) _ f(3), of "take workerThreads ?am"]
    by (simp add: spawn_def checkAndMineDevFee_sync_fields b emit_def)
  show "solvedAddressChallenges (startMining_sync s) = solvedAddressChallenges s"
    unfolding eq using sync_fold [OF f(1,2) _ f(3), of "take workerThreads ?am"]
    by (simp add: spawn_def checkAndMineDevFee_sync_fields b emit_def)
  show "addressesProcessedCurrentChallenge (startMining_sync s)
           = (if isRunning s \<and> cid \<noteq> []
              then addressesProcessedCurrentChallenge s \<union> index ` set (take workerThreads ?am)
              else addressesProcessedCurrentChallenge s)"
    unfolding eq using sync_fold [OF f(1,2) _ f(3), of "take workerThreads ?am"]
    by (auto simp: spawn_def checkAndMineDevFee_sync_fields b emit_def)
qed

text \<open>
  Claim C1, amended. When a poll observes an active challenge whose id differs from the
  current one, the transition clears both the per-challenge ``addresses processed'' set
  and the Submitted-Hash Set and leaves the Solved-Pairs map unchanged. When the call
  returns, whatever the outcome of the ROM initialisation, the Submitted-Hash Set is empty
  and the Solved-Pairs map is as before; the ``addresses processed'' set holds nothing of
  the old challenge: it is empty, unless the transition succeeded and mining for the new
  challenge has started inside the call, in which case it is exactly the set of indexes
  of the first batch (at most \<open>workerThreads\<close>) of registered addresses that have not
  solved the new challenge.
\<close>

theorem new_challenge_clears_both_sets:
  assumes "fetchChallenge env = Inr resp" and "code resp = CodeActive"
    and "challenge resp = Some ch" and "Some (challenge_id ch) \<noteq> currentChallengeId s"
  shows "submittedSolutions (snd (pollAndMine env s)) = {}
     \<and> solvedAddressChallenges (snd (pollAndMine env s)) = solvedAddressChallenges s
     \<and> addressesProcessedCurrentChallenge (snd (pollAndMine env s))
         = (if fst (pollAndMine env s) = Inr () \<and> isRunning s \<and> challenge_id ch \<noteq> []
            then index ` set (take workerThreads
                   (filter (\<lambda>a. registered a
                                \<and> \<not> isSolved (solvedAddressChallenges s) (bech32 a) (challenge_id ch))
                      (addresses s)))
            else {})"
proof -
  let ?s3 = "s\<lparr>isMining := False, addressesProcessedCurrentChallenge := {}, submittedSolutions := {}\<rparr>"
  have s3: "(if isMining s then s\<lparr>isMining := False\<rparr> else s)
      \<lparr>addressesProcessedCurrentChallenge := {}, submittedSolutions := {}\<rparr> = ?s3"
    by simp
  show ?thesis
  proof (cases "initRom env (no_pre_mine ch)")
    case (Inl e)
    with assms show ?thesis by (simp add: pollAndMine_def Let_def)
  next
    case (Inr readyAfter)
    show ?thesis
    proof (cases "isRomReadyAt readyAfter (waitRom readyAfter 0)")
      case False
      with assms Inr show ?thesis by (simp add: pollAndMine_def Let_def)
    next
      case True
      let ?s6 = "emit (Status True (Some (challenge_id ch)))
         (?s3\<lparr>romReady := True, currentChallengeId := Some (challenge_id ch), currentChallenge := Some ch\<rparr>)"
      have p: "pollAndMine env s = (Inr (), startMining_sync ?s6)"
        using assms Inr True by (simp add: pollAndMine_def Let_def emit_def s3)
      have g: "\<not> isMining ?s6" "currentChallenge ?s6 = Some ch"
        "currentChallengeId ?s6 = Some (challenge_id ch)" "romReady ?s6"
        by (simp_all add: emit_def)
      have b: "submittedSolutions ?s6 = {}" "solvedAddressChallenges ?s6 = solvedAddressChallenges s"
        "addressesProcessedCurrentChallenge ?s6 = {}" "isRunning ?s6 = isRunning s"
        "addresses ?s6 = addresses s"
        by (simp_all add: emit_def)
      show ?thesis
        unfolding p using startMining_sync_fields [OF g] by (simp add: b)
    qed
  qed
qed

theorem new_challenge_clears_both_sets_witness:
  "fetchChallenge exPoll = Inr \<lparr>code = CodeActive, challenge = Some exChallenge2, starts_at = None\<rparr>
   \<and> Some (challenge_id exChallenge2) \<noteq> currentChallengeId exBusyWallet
   \<and> addressesProcessedCurrentChallenge exBusyWallet = {5}
   \<and> submittedSolutions exBusyWallet = {''00aa''}
   \<and> fst (pollAndMine exPoll exBusyWallet) = Inr ()
   \<and> submittedSolutions (snd (pollAndMine exPoll exBusyWallet)) = {}
   \<and> solvedAddressChallenges (snd (pollAndMine exPoll exBusyWallet))
       = solvedAddressChallenges exBusyWallet
   \<and> addressesProcessedCurrentChallenge (snd (pollAndMine exPoll exBusyWallet)) = {0}"
proof -
  have f: "fetchChallenge exPoll = Inr \<lparr>code = CodeActive, challenge = Some exChallenge2, starts_at = None\<rparr>"
    by (simp add: exPoll_def)
  have n: "Some (challenge_id exChallenge2) \<noteq> currentChallengeId exBusyWallet"
    by (simp add: exBusyWallet_def exBusy_def exState_def exChallenge2_def)
  have b: "addressesProcessedCurrentChallenge exBusyWallet = {5}"
    "submittedSolutions exBusyWallet = {''00aa''}" "isRunning exBusyWallet"
    "challenge_id exChallenge2 \<noteq> []"
    by (simp_all add: exBusyWallet_def exBusy_def exState_def exChallenge2_def)
  have ok: "fst (pollAndMine exPoll exBusyWallet) = Inr ()"
    by (simp add: pollAndMine_def exPoll_def exBusyWallet_def exBusy_def exState_def
          exChallenge2_def waitRom.simps isRomReadyAt_def Let_def)
  have am: "index ` set (take workerThreads
              (filter (\<lambda>a. registered a
                   \<and> \<not> isSolved (solvedAddressChallenges exBusyWallet) (bech32 a) (challenge_id exChallenge2))
                 (addresses exBusyWallet))) = {0}"
    by (simp add: exBusyWallet_def exBusy_def exState_def exChallenge2_def exAddress_def
          exUnregistered_def isSolved_def workerThreads_def)
  from new_challenge_clears_both_sets [OF f _ _ n] f n b ok am show ?thesis by simp
qed

section \<open>Dedup/resume store: loading the receipt journal\<close>

lemma solvedPairs_markSolved: "solvedPairs (markSolved a c m) = insert (a, c) (solvedPairs m)"
  by (auto simp: solvedPairs_def isSolved_def markSolved_def split: option.splits if_splits)

lemma foldl_addReceipt_hashes:
  "submittedSolutions (foldl addReceipt s rs)
     = submittedSolutions s \<union> {r_hash r |r. r \<in> set rs \<and> r_hash r \<noteq> []}"
  by (induction rs arbitrary: s) (auto simp: addReceipt_def Let_def)

lemma foldl_addReceipt_pairs:
  "solvedPairs (solvedAddressChallenges (foldl addReceipt s rs))
     = solvedPairs (solvedAddressChallenges s) \<union> {(r_address r, r_challenge_id r) |r. r \<in> set rs}"
  by (induction rs arbitrary: s) (auto simp: addReceipt_def Let_def solvedPairs_markSolved)

lemma foldl_addReceipt_count: "userSolutionsCount (foldl addReceipt s rs) = userSolutionsCount s"
  by (induction rs arbitrary: s) (auto simp: addReceipt_def Let_def)

text \<open>
  Claim C2 as stated: after the startup load, the Submitted-Hash Set contains the hash of
  every receipt read, fee receipts included, and the Solved-Pairs map contains its pair.
  The code filters the fee receipts out before the loop (``they shouldn't count as
  'solved' for user addresses''): the fee receipt of a journal of two receipts leaves
  neither its hash nor its pair.
\<close>

theorem fee_receipt_is_loaded_counterexample:
  "exFeeReceipt \<in> set [exUserReceipt, exFeeReceipt]
   \<and> r_hash exFeeReceipt
       \<notin> submittedSolutions (loadSubmittedSolutions (Inr [exUserReceipt, exFeeReceipt]) exState)
   \<and> \<not> isSolved (solvedAddressChallenges (loadSubmittedSolutions (Inr [exUserReceipt, exFeeReceipt]) exState))
          (r_address exFeeReceipt) (r_challenge_id exFeeReceipt)"
  by (simp add: loadSubmittedSolutions_def addReceipt_def exFeeReceipt_def exUserReceipt_def
        exState_def isSolved_def markSolved_def)

text \<open>
  Claim C2, amended. After the startup load of a journal that could be read, the
  Submitted-Hash Set is what it was plus the non-empty hashes of the non-fee receipts,
  the Solved-Pairs map is what it was plus the (identity, challenge id) pairs of the
  non-fee receipts, and the user-solutions counter equals the number of non-fee
  receipts; fee receipts contribute nothing.
\<close>

theorem loadSubmittedSolutions_user_receipts:
  "submittedSolutions (loadSubmittedSolutions (Inr rs) s)
     = submittedSolutions s \<union> {r_hash r |r. r \<in> set rs \<and> \<not> r_isDevFee r \<and> r_hash r \<noteq> []}
   \<and> solvedPairs (solvedAddressChallenges (loadSubmittedSolutions (Inr rs) s))
     = solvedPairs (solvedAddressChallenges s)
         \<union> {(r_address r, r_challenge_id r) |r. r \<in> set rs \<and> \<not> r_isDevFee r}
   \<and> userSolutionsCount (loadSubmittedSolutions (Inr rs) s) = length (filter (\<lambda>r. \<not> r_isDevFee r) rs)"
  by (auto simp: loadSubmittedSolutions_def Let_def foldl_addReceipt_hashes foldl_addReceipt_pairs
        foldl_addReceipt_count)

theorem loadSubmittedSolutions_user_receipts_witness:
  "submittedSolutions (loadSubmittedSolutions (Inr [exUserReceipt, exFeeReceipt]) exState) = {''00aa''}
   \<and> isSolved (solvedAddressChallenges (loadSubmittedSolutions (Inr [exUserReceipt, exFeeReceipt]) exState))
        ''addr1user'' ''c0''
   \<and> userSolutionsCount (loadSubmittedSolutions (Inr [exUserReceipt, exFeeReceipt]) exState) = 1"
proof -
  have h: "submittedSolutions (loadSubmittedSolutions (Inr [exUserReceipt, exFeeReceipt]) exState) = {''00aa''}"
    by (simp add: loadSubmittedSolutions_def addReceipt_def exFeeReceipt_def exUserReceipt_def
          exState_def)
  have p: "isSolved (solvedAddressChallenges (loadSubmittedSolutions (Inr [exUserReceipt, exFeeReceipt]) exState))
        ''addr1user'' ''c0''"
    by (simp add: loadSubmittedSolutions_def addReceipt_def exFeeReceipt_def exUserReceipt_def
          exState_def isSolved_def markSolved_def)
  have c: "length (filter (\<lambda>r. \<not> r_isDevFee r) [exUserReceipt, exFeeReceipt]) = 1"
    by (simp add: exUserReceipt_def exFeeReceipt_def)
  from loadSubmittedSolutions_user_receipts [of "[exUserReceipt, exFeeReceipt]" exState] h p c
  show ?thesis by simp
qed

section \<open>Solution submitter\<close>

lemma postOutcome_http:
  "postOutcome (HttpResponse status txt crypto) =
     (if 200 \<le> status \<and> status < 300 then Inr crypto
      else if status < 500 then Inl (ServerRejected status txt)
      else Inl (AxiosBadStatus status txt))"
  by (simp add: postOutcome_def)

lemma submitSolution_accepted:
  assumes "currentChallengeId s = Some cid" "cid \<noteq> []" "walletManager s"
    and "postOutcome resp = Inr crypto"
  shows "submitSolution now resp addr nonce hash preimage isDevFee s =
     (s\<lparr>solutionsFound := solutionsFound s + 1,
        userSolutionsCount := (if isDevFee then userSolutionsCount s else userSolutionsCount s + 1),
        devFee := (if isDevFee then recordDevFeeSolution (devFee s) else devFee s),
        spawned := (if isDevFee then spawned s else spawned s @ [TaskCheckAndMineDevFee]),
        solutionTimestamps := solutionTimestamps s @ [now],
        receipts := receipts s @
          [\<lparr>r_ts = now, r_address = bech32 addr, r_challenge_id = cid, r_nonce = nonce,
            r_hash = hash, r_crypto_receipt = crypto, r_isDevFee = isDevFee\<rparr>],
        trace := trace s @
          [Post (bech32 addr) cid nonce,
           Emit (SolutionResult (bech32 addr) (index addr) True None),
           Emit (Solution (bech32 addr) cid nonce)]\<rparr>)"
  using assms by (simp add: submitSolution_def Let_def emit_def spawn_def)

lemma submitSolution_failed:
  assumes "currentChallengeId s = Some cid" "cid \<noteq> []" "walletManager s"
    and "postOutcome resp = Inl err"
  shows "submitSolution now resp addr nonce hash preimage isDevFee s =
     (s\<lparr>errors := errors s @
          [\<lparr>e_ts = now, e_address = bech32 addr, e_challenge_id = Some cid, e_nonce = nonce,
            e_hash = hash, e_error = err\<rparr>],
        trace := trace s @
          [Post (bech32 addr) cid nonce,
           Emit (SolutionResult (bech32 addr) (index addr) False (Some err))]\<rparr>)"
  using assms by (simp add: submitSolution_def Let_def emit_def spawn_def)

text \<open>
  Claim C5. For every HTTP status returned by the submission call, the submission is
  treated as accepted (counter incremented, success receipt appended, success event
  published) if and only if the status is in the 2xx range; any other status is a
  rejection that is surfaced as an error (error receipt, \<^verbatim>\<open>solution_result\<close> event with
  \<^verbatim>\<open>success = false\<close>, nothing counted); in both cases the trace gains exactly one
  network submission for that nonce.
\<close>

theorem submitSolution_accepted_iff_2xx:
  assumes "currentChallengeId s = Some cid" and "cid \<noteq> []" and "walletManager s"
  shows "(200 \<le> status \<and> status < 300 \<longrightarrow>
            solutionsFound (submitSolution now (HttpResponse status txt crypto) addr nonce hash preimage isDevFee s)
              = solutionsFound s + 1
          \<and> receipts (submitSolution now (HttpResponse status txt crypto) addr nonce hash preimage isDevFee s)
              = receipts s @ [\<lparr>r_ts = now, r_address = bech32 addr, r_challenge_id = cid, r_nonce = nonce,
                   r_hash = hash, r_crypto_receipt = crypto, r_isDevFee = isDevFee\<rparr>]
          \<and> errors (submitSolution now (HttpResponse status txt crypto) addr nonce hash preimage isDevFee s)
              = errors s
          \<and> trace (submitSolution now (HttpResponse status txt crypto) addr nonce hash preimage isDevFee s)
              = trace s @ [Post (bech32 addr) cid nonce,
                   Emit (SolutionResult (bech32 addr) (index addr) True None),
                   Emit (Solution (bech32 addr) cid nonce)])
       \<and> (\<not> (200 \<le> status \<and> status < 300) \<longrightarrow>
            solutionsFound (submitSolution now (HttpResponse status txt crypto) addr nonce hash preimage isDevFee s)
              = solutionsFound s
          \<and> receipts (submitSolution now (HttpResponse status txt crypto) addr nonce hash preimage isDevFee s)
              = receipts s
          \<and> errors (submitSolution now (HttpResponse status txt crypto) addr nonce hash preimage isDevFee s)
              = errors s @ [\<lparr>e_ts = now, e_address = bech32 addr, e_challenge_id = Some cid, e_nonce = nonce,
                   e_hash = hash,
                   e_error = (if status < 500 then ServerRejected status txt else AxiosBadStatus status txt)\<rparr>]
          \<and> trace (submitSolution now (HttpResponse status txt crypto) addr nonce hash preimage isDevFee s)
              = trace s @ [Post (bech32 addr) cid nonce,
                   Emit (SolutionResult (bech32 addr) (index addr) False
                     (Some (if status < 500 then ServerRejected status txt else AxiosBadStatus status txt)))])
       \<and> submissions (trace (submitSolution now (HttpResponse status txt crypto) addr nonce hash preimage isDevFee s))
           = submissions (trace s) + 1"
proof (cases "200 \<le> status \<and> status < 300")
  case True
  then have "postOutcome (HttpResponse status txt crypto) = Inr crypto"
    by (simp add: postOutcome_http)
  from submitSolution_accepted [OF assms this] True show ?thesis
    by (simp add: submissions_def)
next
  case False
  then have "postOutcome (HttpResponse status txt crypto)
      = Inl (if status < 500 then ServerRejected status txt else AxiosBadStatus status txt)"
    by (simp add: postOutcome_http)
  from submitSolution_failed [OF assms this] False show ?thesis
    by (simp add: submissions_def)
qed

theorem submitSolution_accepted_iff_2xx_witness:
  "currentChallengeId exState = Some ''c1'' \<and> walletManager exState
   \<and> errors (submitSolution 9 (HttpResponse 409 ''Conflict'' None) exAddress ''0000000000000001'' ''00aa'' ''p'' False exState)
       = [\<lparr>e_ts = 9, e_address = ''addr1user'', e_challenge_id = Some ''c1'', e_nonce = ''0000000000000001'',
           e_hash = ''00aa'', e_error = ServerRejected 409 ''Conflict''\<rparr>]
   \<and> trace (submitSolution 9 (HttpResponse 409 ''Conflict'' None) exAddress ''0000000000000001'' ''00aa'' ''p'' False exState)
       = [Post ''addr1user'' ''c1'' ''0000000000000001'',
          Emit (SolutionResult ''addr1user'' 0 False (Some (ServerRejected 409 ''Conflict'')))]
   \<and> solutionsFound (submitSolution 9 (HttpResponse 409 ''Conflict'' None) exAddress ''0000000000000001'' ''00aa'' ''p'' False exState) = 0
   \<and> solutionsFound (submitSolution 9 (HttpResponse 201 ''Created'' (Some ''rc'')) exAddress ''0000000000000001'' ''00aa'' ''p'' False exState) = 1
   \<and> trace (submitSolution 9 (HttpResponse 201 ''Created'' (Some ''rc'')) exAddress ''0000000000000001'' ''00aa'' ''p'' False exState)
       = [Post ''addr1user'' ''c1'' ''0000000000000001'',
          Emit (SolutionResult ''addr1user'' 0 True None),
          Emit (Solution ''addr1user'' ''c1'' ''0000000000000001'')]"
proof -
  have g: "currentChallengeId exState = Some ''c1''" "''c1'' \<noteq> []" "walletManager exState"
    by (simp_all add: exState_def)
  have i: "errors exState = []" "trace exState = []" "solutionsFound exState = 0"
    "bech32 exAddress = ''addr1user''" "index exAddress = 0"
    by (simp_all add: exState_def exAddress_def)
  from submitSolution_accepted_iff_2xx [OF g, of 409 9 "''Conflict''" None exAddress]
    submitSolution_accepted_iff_2xx [OF g, of 201 9 "''Created''" "Some ''rc''" exAddress]
    g i
  show ?thesis by simp
qed

lemma submitSolution_solved:
  "solvedAddressChallenges (submitSolution now resp addr nonce hash preimage isDevFee s)
     = solvedAddressChallenges s"
  by (simp add: submitSolution_def Let_def emit_def spawn_def split: option.splits sum.splits)

lemma submitSolution_submitted:
  "submittedSolutions (submitSolution now resp addr nonce hash preimage isDevFee s)
     = submittedSolutions s"
  by (simp add: submitSolution_def Let_def emit_def spawn_def split: option.splits sum.splits)

text \<open>
  Claim C6. Whenever the submission of a found solution fails (a rejection or a network
  error), an error receipt with the address, challenge id, nonce, hash and error is
  appended to the journal and a \<^verbatim>\<open>solution_result\<close> event with \<^verbatim>\<open>success = false\<close> is
  published; \<^verbatim>\<open>submitSolution\<close> leaves the Solved-Pairs map as it finds it, so the pair
  marked solved before the submission is still marked solved after the failure, and no
  success receipt is written.
\<close>

theorem failed_submission_keeps_pair_solved:
  assumes "currentChallengeId s = Some cid" and "cid \<noteq> []" and "walletManager s"
    and "postOutcome (axiosPost env) = Inl err"
  shows "errors (onSolutionFound env addr isDevFee challengeId nonce hash preimage s)
           = errors s @ [\<lparr>e_ts = submitNow env, e_address = bech32 addr, e_challenge_id = Some cid,
                e_nonce = nonce, e_hash = hash, e_error = err\<rparr>]
       \<and> trace (onSolutionFound env addr isDevFee challengeId nonce hash preimage s)
           = trace s @ [Emit (SolutionSubmit (bech32 addr) (index addr) challengeId nonce (take 50 preimage @ ''...'')),
                Post (bech32 addr) cid nonce,
                Emit (SolutionResult (bech32 addr) (index addr) False (Some err))]
       \<and> isSolved (solvedAddressChallenges (onSolutionFound env addr isDevFee challengeId nonce hash preimage s))
            (bech32 addr) challengeId
       \<and> solvedAddressChallenges (onSolutionFound env addr isDevFee challengeId nonce hash preimage s)
           = markSolved (bech32 addr) challengeId (solvedAddressChallenges s)
       \<and> solvedAddressChallenges (submitSolution (submitNow env) (axiosPost env) addr nonce hash preimage isDevFee s)
           = solvedAddressChallenges s
       \<and> receipts (onSolutionFound env addr isDevFee challengeId nonce hash preimage s) = receipts s"
proof -
  let ?s3 = "emit (SolutionSubmit (bech32 addr) (index addr) challengeId nonce (take 50 preimage @ ''...''))
     (s\<lparr>submittedSolutions := insert hash (submittedSolutions s),
        solvedAddressChallenges := markSolved (bech32 addr) challengeId (solvedAddressChallenges s)\<rparr>)"
  have g: "currentChallengeId ?s3 = Some cid" "walletManager ?s3"
    using assms by (simp_all add: emit_def)
  have eq: "onSolutionFound env addr isDevFee challengeId nonce hash preimage s
      = submitSolution (submitNow env) (axiosPost env) addr nonce hash preimage isDevFee ?s3"
    by (simp add: onSolutionFound_def Let_def)
  show ?thesis
    unfolding eq submitSolution_failed [OF g(1) assms(2) g(2) assms(4)] submitSolution_solved
    by (simp add: emit_def isSolved_def markSolved_def)
qed

theorem failed_submission_keeps_pair_solved_witness:
  "currentChallengeId exState = Some ''c1'' \<and> walletManager exState
   \<and> postOutcome (axiosPost exRejected) = Inl (ServerRejected 409 ''Conflict'')
   \<and> errors (onSolutionFound exRejected exAddress False ''c1'' ''0000000000000001'' ''00aa'' ''p'' exState)
       = [\<lparr>e_ts = 2000, e_address = ''addr1user'', e_challenge_id = Some ''c1'',
           e_nonce = ''0000000000000001'', e_hash = ''00aa'', e_error = ServerRejected 409 ''Conflict''\<rparr>]
   \<and> isSolved (solvedAddressChallenges (onSolutionFound exRejected exAddress False ''c1'' ''0000000000000001'' ''00aa'' ''p'' exState))
        ''addr1user'' ''c1''
   \<and> receipts (onSolutionFound exRejected exAddress False ''c1'' ''0000000000000001'' ''00aa'' ''p'' exState) = []"
proof -
  have g: "currentChallengeId exState = Some ''c1''" "''c1'' \<noteq> []" "walletManager exState"
    by (simp_all add: exState_def)
  have p: "postOutcome (axiosPost exRejected) = Inl (ServerRejected 409 ''Conflict'')"
    by (simp add: exRejected_def postOutcome_def)
  have i: "errors exState = []" "receipts exState = []" "submitNow exRejected = 2000"
    "bech32 exAddress = ''addr1user''"
    by (simp_all add: exState_def exAddress_def exRejected_def)
  from failed_submission_keeps_pair_solved [OF g p, of exAddress False "''c1''"] g p i
  show ?thesis by (simp add: isSolved_def markSolved_def)
qed

section \<open>Lifecycle: start\<close>

text \<open>
  Claim C9. Calling \<^verbatim>\<open>start\<close> while the orchestrator is running returns without error
  and changes nothing but the console: the wallet is not reloaded, no task is launched,
  no event is published, and the current challenge, the counters and the dedup sets are
  as before; the orchestrator is still running, so a further call does the same.
\<close>

theorem start_while_running_is_noop:
  "isRunning s \<Longrightarrow>
     start env s = (Inr (), s\<lparr>console := console s @ [LogAlreadyRunning]\<rparr>)
     \<and> isRunning (snd (start env s))"
  by (simp add: start_def consoleLog_def)

theorem start_while_running_is_noop_witness:
  "isRunning exBusy
   \<and> start exStart exBusy = (Inr (), exBusy\<lparr>console := console exBusy @ [LogAlreadyRunning]\<rparr>)
   \<and> addresses (snd (start exStart exBusy)) = []
   \<and> submittedSolutions (snd (start exStart exBusy)) = {''00aa''}
   \<and> spawned (snd (start exStart exBusy)) = []
   \<and> trace (snd (start exStart exBusy)) = []"
proof -
  have r: "isRunning exBusy" by (simp add: exBusy_def exState_def)
  have i: "addresses exBusy = []" "submittedSolutions exBusy = {''00aa''}" "spawned exBusy = []"
    "trace exBusy = []"
    by (simp_all add: exBusy_def exState_def)
  from start_while_running_is_noop [OF r, of exStart] r i show ?thesis by simp
qed

section \<open>Dev fee manager: the recipient address\<close>

text \<open>
  Claim C10 as stated: \<^verbatim>\<open>getDevFeeAddress\<close> raises only when the fetch fails and no cached
  address exists. The guard on \<^verbatim>\<open>isEnabled\<close> at the head of \<^verbatim>\<open>fetchDevFeeAddress\<close> stands
  outside the \<^verbatim>\<open>try\<close>: a manager built with \<^verbatim>\<open>enabled: false\<close> raises although the
  assignment service would answer with a valid address.
\<close>

theorem raises_only_on_failed_fetch_counterexample:
  "fetchAttempt (FetchOk ''addr1dev'' 7 True) = Inr (''addr1dev'', 7)
   \<and> fst (getDevFeeAddress 0 1 (FetchOk ''addr1dev'' 7 True) exDisabledManager) = Inl DevFeeNotEnabled"
  by (simp add: fetchAttempt_def startsWith_def getDevFeeAddress_def fetchDevFeeAddress_def
        exDisabledManager_def DevFeeManager_new_def noOverrides_def isEnabled_def Let_def
        loadCache_default_def orElse_def)

text \<open>
  Claim C10, amended. When dev fee is enabled, the fetch fails (network error or invalid
  address format) and a cached address exists, \<^verbatim>\<open>getDevFeeAddress\<close> returns the cached
  address, whatever its age. It raises exactly when there is no cached address less than
  one hour old and either dev fee is disabled, or the fetch fails and no cached address
  exists at all.
\<close>

theorem getDevFeeAddress_fallback:
  "(isEnabled m \<and> fetchAttempt r = Inl msg \<and> currentAddress (cache m) = Some ca
      \<longrightarrow> fst (getDevFeeAddress now tnow r m) = Inr (address ca))
   \<and> ((\<exists>e. fst (getDevFeeAddress now tnow r m) = Inl e)
        \<longleftrightarrow> (\<not> isFresh now m
             \<and> (\<not> isEnabled m \<or> ((\<exists>msg. fetchAttempt r = Inl msg) \<and> currentAddress (cache m) = None))))"
  by (cases "fetchAttempt r")
     (auto simp: getDevFeeAddress_def fetchDevFeeAddress_def isFresh_def Let_def
        split: option.splits sum.splits prod.splits)

theorem getDevFeeAddress_fallback_witness:
  "isEnabled exCachedManager
   \<and> fetchAttempt (FetchFail ''timeout'') = Inl ''timeout''
   \<and> currentAddress (cache exCachedManager)
       = Some \<lparr>address = ''addr1old'', addressIndex = 3, fetchedAt = 0, usedCount = 0\<rparr>
   \<and> \<not> isFresh 7200000 exCachedManager
   \<and> fst (getDevFeeAddress 7200000 7200001 (FetchFail ''timeout'') exCachedManager) = Inr ''addr1old''
   \<and> fetchAttempt (FetchOk ''bad'' 0 True) = Inl ''Invalid address format: bad''
   \<and> fst (getDevFeeAddress 7200000 7200001 (FetchOk ''bad'' 0 True) exCachedManager) = Inr ''addr1old''"
proof -
  have c: "currentAddress (cache exCachedManager)
       = Some \<lparr>address = ''addr1old'', addressIndex = 3, fetchedAt = 0, usedCount = 0\<rparr>"
    and e: "isEnabled exCachedManager"
    by (simp_all add: exCachedManager_def fetchDevFeeAddress_def fetchAttempt_def startsWith_def
          devFeeManager_def DevFeeManager_new_def noOverrides_def isEnabled_def Let_def
          loadCache_default_def orElse_def)
  have f: "fetchAttempt (FetchFail ''timeout'') = Inl ''timeout''"
    "fetchAttempt (FetchOk ''bad'' 0 True) = Inl ''Invalid address format: bad''"
    by (simp_all add: fetchAttempt_def startsWith_def)
  have o: "\<not> isFresh 7200000 exCachedManager"
    by (simp add: isFresh_def c ONE_HOUR_def)
  from getDevFeeAddress_fallback [of exCachedManager "FetchFail ''timeout''" "''timeout''" _ 7200000 7200001]
    getDevFeeAddress_fallback [of exCachedManager "FetchOk ''bad'' 0 True" "''Invalid address format: bad''" _ 7200000 7200001]
    c e f o
  show ?thesis by simp
qed


section \<open>Fee-flagged mining and the dev fee loop: frame lemmas\<close>

lemma sequenceE_map_Inr: "sequenceE (map (\<lambda>i. Inr (f i)) xs) = Inr (map f xs)"
  by (induction xs) simp_all

lemma candidate_eq: "candidate ext rd b addr ch i = Inr (candidateAt ext rd b addr ch i)"
  by (simp add: candidate_def candidateAt_def nonceAt_def generateNonce_default_eq)

lemma buildBatch_eq:
  "buildBatch ext rd b addr ch = Inr (map (candidateAt ext rd b addr ch) [0..<BATCH_SIZE])"
proof -
  have "candidate ext rd b addr ch = (\<lambda>i. Inr (candidateAt ext rd b addr ch i))"
    by (rule ext) (rule candidate_eq)
  then show ?thesis by (simp add: buildBatch_def sequenceE_map_Inr)
qed

lemma withinFee_refl: "withinFee k s s"
  by (simp add: withinFee_def)

lemma withinFee_trans: "withinFee j s t \<Longrightarrow> withinFee k t u \<Longrightarrow> withinFee (j + k) s u"
  by (auto simp: withinFee_def)

lemma withinFee_mono: "withinFee j s t \<Longrightarrow> j \<le> k \<Longrightarrow> withinFee k s t"
  by (auto simp: withinFee_def)

lemma submissions_append: "submissions (xs @ ys) = submissions xs + submissions ys"
  by (simp add: submissions_def)

lemma roundsStarted_append: "roundsStarted (xs @ ys) = roundsStarted xs + roundsStarted ys"
  by (simp add: roundsStarted_def)

lemma withinFee_progress: "withinFee 0 s (progress addr hc s)"
  by (simp add: withinFee_def progress_def emit_def submissions_append submissions_def)

lemma withinFee_batchError: "withinFee 0 s (consoleLog LogBatchError s)"
  by (simp add: withinFee_def consoleLog_def roundsStarted_append roundsStarted_def)

lemma withinFee_hashes: "withinFee 0 s (s\<lparr>totalHashesComputed := n\<rparr>)"
  by (simp add: withinFee_def)

lemma withinFee_submit_fee: "withinFee 1 s (submitSolution now resp addr nonce hash preimage True s)"
  by (simp add: withinFee_def submitSolution_def Let_def emit_def submissions_append submissions_def
        recordDevFeeSolution_def getTotalDevFeeSolutions_def split: option.splits sum.splits)

lemma withinFee_found_fee: "withinFee 1 s (onSolutionFound env addr True cid nonce hash preimage s)"
proof -
  let ?t = "emit (SolutionSubmit (bech32 addr) (index addr) cid nonce (take 50 preimage @ ''...''))
     (s\<lparr>submittedSolutions := insert hash (submittedSolutions s),
        solvedAddressChallenges := markSolved (bech32 addr) cid (solvedAddressChallenges s)\<rparr>)"
  have a: "withinFee 0 s ?t"
    by (simp add: withinFee_def emit_def submissions_append submissions_def)
  have b: "onSolutionFound env addr True cid nonce hash preimage s
      = submitSolution (submitNow env) (axiosPost env) addr nonce hash preimage True ?t"
    by (simp add: onSolutionFound_def Let_def)
  show ?thesis
    unfolding b using withinFee_trans [OF a withinFee_submit_fee] by simp
qed

lemma mineLoop_fee_frame:
  "mineLoop ext env addr True cid ch b hc rs s = Some (r, s') \<Longrightarrow> withinFee 1 s s'"
proof (induction rs arbitrary: b hc s)
  case Nil
  then show ?case
    by (simp add: buildBatch_eq withinFee_refl split: if_splits)
next
  case (Cons x rs)
  show ?case
  proof (cases "isRunning s \<and> isMining s \<and> currentChallengeId s = Some cid")
    case False
    with Cons.prems show ?thesis by (auto simp: withinFee_refl)
  next
    case True
    note run = this
    show ?thesis
    proof (cases x)
      case (HashFailure msg)
      with run Cons.prems have
        "mineLoop ext env addr True cid ch (b + 1) hc rs (progress addr hc (consoleLog LogBatchError s)) = Some (r, s')"
        by (simp add: buildBatch_eq)
      from Cons.IH [OF this] have "withinFee 1 (progress addr hc (consoleLog LogBatchError s)) s'" .
      with withinFee_trans [OF withinFee_trans [OF withinFee_batchError withinFee_progress]]
      show ?thesis by fastforce
    next
      case (Hashes hashes)
      let ?s1 = "s\<lparr>totalHashesComputed := totalHashesComputed s + length hashes\<rparr>"
      let ?hc = "hc + length hashes"
      let ?sc = "if ?hc = length hashes \<and> hashes = [] then ScanTypeError
                 else scanHashes (\<lambda>h. matchesDifficulty ext h (difficulty ch))
                        (submittedSolutions ?s1) (length (map (candidateAt ext (rnd env) b (bech32 addr) ch) [0..<BATCH_SIZE])) 0 hashes"
      have s1: "withinFee 0 s ?s1" by (rule withinFee_hashes)
      show ?thesis
      proof (cases ?sc)
        case (Hit i h)
        with run Hashes Cons.prems have
          "s' = onSolutionFound env addr True cid
                  (fst (map (candidateAt ext (rnd env) b (bech32 addr) ch) [0..<BATCH_SIZE] ! i)) h
                  (snd (map (candidateAt ext (rnd env) b (bech32 addr) ch) [0..<BATCH_SIZE] ! i)) ?s1"
          by (simp add: buildBatch_eq Let_def del: length_map nth_map)
        with withinFee_trans [OF s1 withinFee_found_fee] show ?thesis by simp
      next
        case Miss
        with run Hashes Cons.prems have
          "mineLoop ext env addr True cid ch (b + 1) ?hc rs (progress addr ?hc ?s1) = Some (r, s')"
          by (simp add: buildBatch_eq Let_def del: length_map nth_map)
        from Cons.IH [OF this] have "withinFee 1 (progress addr ?hc ?s1) s'" .
        with withinFee_trans [OF withinFee_trans [OF s1 withinFee_progress]]
        show ?thesis by fastforce
      next
        case ScanTypeError
        with run Hashes Cons.prems have
          "mineLoop ext env addr True cid ch (b + 1) ?hc rs (progress addr ?hc (consoleLog LogBatchError ?s1)) = Some (r, s')"
          by (simp add: buildBatch_eq Let_def del: length_map nth_map)
        from Cons.IH [OF this] have "withinFee 1 (progress addr ?hc (consoleLog LogBatchError ?s1)) s'" .
        with withinFee_trans [OF withinFee_trans [OF withinFee_trans [OF s1 withinFee_batchError] withinFee_progress]]
        show ?thesis by fastforce
      qed
    qed
  qed
qed

lemma mineForAddress_fee_frame:
  "mineForAddress ext env addr True s = Some (r, s') \<Longrightarrow> withinFee 1 s s'"
proof -
  assume a: "mineForAddress ext env addr True s = Some (r, s')"
  show ?thesis
  proof (cases "currentChallenge s")
    case None
    with a show ?thesis by (simp add: mineForAddress_def withinFee_refl)
  next
    case (Some ch)
    note ch = this
    show ?thesis
    proof (cases "currentChallengeId s")
      case None
      with a ch show ?thesis by (simp add: mineForAddress_def withinFee_refl)
    next
      case (Some cid)
      let ?t = "emit (MiningStart (bech32 addr) (index addr) cid)
         (s\<lparr>addressesProcessedCurrentChallenge := insert (index addr) (addressesProcessedCurrentChallenge s)\<rparr>)"
      have t: "withinFee 0 s ?t"
        by (simp add: withinFee_def emit_def submissions_append submissions_def)
      have l: "withinFee 0 s (consoleLog (LogRomNotReady (index addr)) s)"
        by (simp add: withinFee_def consoleLog_def roundsStarted_append roundsStarted_def)
      show ?thesis
      proof (cases "cid = [] \<or> \<not> romReady s")
        case True
        with a ch Some l show ?thesis
          by (auto simp: mineForAddress_def withinFee_refl intro: withinFee_mono split: if_splits)
      next
        case False
        with a ch Some have "mineLoop ext env addr True cid ch 0 0 (hashBatchAsync env) ?t = Some (r, s')"
          by (simp add: mineForAddress_def)
        from withinFee_trans [OF t mineLoop_fee_frame [OF this]] show ?thesis by simp
      qed
    qed
  qed
qed

lemma getDevFeeAddress_frame:
  "getDevFeeAddress now tnow r m = (res, m') \<Longrightarrow>
     config m' = config m \<and> getTotalDevFeeSolutions m' = getTotalDevFeeSolutions m"
  by (auto simp: getDevFeeAddress_def fetchDevFeeAddress_def getTotalDevFeeSolutions_def Let_def
        split: option.splits if_splits sum.splits prod.splits)

lemma afterFeeRounds_0: "afterFeeRounds 0 s s"
  by (simp add: afterFeeRounds_def)

lemma afterFeeRounds_step:
  "afterFeeRounds 1 s t \<Longrightarrow> afterFeeRounds k t u \<Longrightarrow> afterFeeRounds (Suc k) s u"
  by (auto simp: afterFeeRounds_def)

lemma round_fetch_failed:
  assumes "getDevFeeAddress now tnow r (devFee s) = (res, m)"
    and "roundsStarted [l2] = 0"
  shows "afterFeeRounds 1 s (consoleLog l2 ((consoleLog (LogDevFeeFetching i n) s)\<lparr>devFee := m\<rparr>))"
  using getDevFeeAddress_frame [OF assms(1)] assms(2)
  by (auto simp: afterFeeRounds_def consoleLog_def roundsStarted_append roundsStarted_def)

lemma round_mined:
  assumes "getDevFeeAddress now tnow r (devFee s) = (res, m)"
    and "withinFee 1 ((consoleLog (LogDevFeeFetching i n) s)\<lparr>devFee := m\<rparr>) s1"
    and "roundsStarted [l2] = 0"
  shows "afterFeeRounds 1 s (consoleLog l2 s1)"
  using getDevFeeAddress_frame [OF assms(1)] assms(2,3)
  by (auto simp: afterFeeRounds_def withinFee_def consoleLog_def roundsStarted_append roundsStarted_def)

lemma devFeeRounds_frame:
  "devFeeRounds ext envs n i s = Some s' \<Longrightarrow> i \<le> n \<Longrightarrow> afterFeeRounds (n - i) s s'"
proof (induction ext envs n i s rule: devFeeRounds.induct)
  case (1 ext envs n i s)
  show ?case
  proof (cases "i < n")
    case False
    with "1.prems" show ?thesis
      by (subst (asm) devFeeRounds.simps) (simp add: afterFeeRounds_0)
  next
    case True
    let ?s0 = "consoleLog (LogDevFeeFetching (i + 1) n) s"
    obtain res m where g: "getDevFeeAddress (feeNow (envs i)) (feeFetchNow (envs i)) (feeFetch (envs i)) (devFee s) = (res, m)"
      by (cases "getDevFeeAddress (feeNow (envs i)) (feeFetchNow (envs i)) (feeFetch (envs i)) (devFee s)")
    have g0: "getDevFeeAddress (feeNow (envs i)) (feeFetchNow (envs i)) (feeFetch (envs i)) (devFee ?s0) = (res, m)"
      using g by (simp add: consoleLog_def)
    have k: "n - i = Suc (n - (i + 1))" using True by simp
    have le: "i + 1 \<le> n" using True by simp
    show ?thesis
    proof (cases res)
      case (Inl e)
      let ?t = "consoleLog (LogDevFeeFailed (i + 1) n e) (?s0\<lparr>devFee := m\<rparr>)"
      from "1.prems"(1) True g0 Inl have r: "devFeeRounds ext envs n (i + 1) ?t = Some s'"
        by (subst (asm) devFeeRounds.simps) (simp add: Let_def)
      have gs: "(Inl e, m) = getDevFeeAddress (feeNow (envs i)) (feeFetchNow (envs i)) (feeFetch (envs i)) (devFee ?s0)"
        using g0 Inl by simp
      have "afterFeeRounds (n - (i + 1)) ?t s'"
        by (rule "1.IH"(1) [OF True refl gs refl r le])
      moreover have "afterFeeRounds 1 s ?t"
        by (rule round_fetch_failed [OF g]) (simp add: roundsStarted_def)
      ultimately show ?thesis unfolding k by (rule afterFeeRounds_step [rotated])
    next
      case (Inr a)
      let ?s1 = "?s0\<lparr>devFee := m\<rparr>"
      have gs: "(Inr a, m) = getDevFeeAddress (feeNow (envs i)) (feeFetchNow (envs i)) (feeFetch (envs i)) (devFee ?s0)"
        using g0 Inr by simp
      show ?thesis
      proof (cases "mineForAddress ext (feeMine (envs i)) (devFeeAddr a) True ?s1")
        case None
        with "1.prems"(1) True g0 Inr show ?thesis
          by (subst (asm) devFeeRounds.simps) (simp add: Let_def)
      next
        case (Some p)
        obtain out s2 where p: "p = (out, s2)" by (cases p)
        have ms: "mineForAddress ext (feeMine (envs i)) (devFeeAddr a) True ?s1 = Some (out, s2)"
          using Some p by simp
        from Some p have w: "withinFee 1 ?s1 s2" by (auto dest: mineForAddress_fee_frame)
        show ?thesis
        proof (cases out)
          case (Inl e)
          let ?t = "consoleLog (LogDevFeeFailed (i + 1) n e) s2"
          from "1.prems"(1) True g0 Inr Some p Inl have r: "devFeeRounds ext envs n (i + 1) ?t = Some s'"
            by (subst (asm) devFeeRounds.simps) (simp add: Let_def)
          have "afterFeeRounds (n - (i + 1)) ?t s'"
            by (rule "1.IH"(2) [OF True refl gs refl ms refl Inl r le])
          moreover have "afterFeeRounds 1 s ?t"
            by (rule round_mined [OF g w]) (simp add: roundsStarted_def)
          ultimately show ?thesis unfolding k by (rule afterFeeRounds_step [rotated])
        next
          case (Inr u)
          let ?t = "consoleLog (LogDevFeeCompleted (i + 1) n) s2"
          from "1.prems"(1) True g0 \<open>res = Inr a\<close> Some p Inr have r: "devFeeRounds ext envs n (i + 1) ?t = Some s'"
            by (subst (asm) devFeeRounds.simps) (simp add: Let_def)
          have "afterFeeRounds (n - (i + 1)) ?t s'"
            by (rule "1.IH"(3) [OF True refl gs refl ms refl Inr r le])
          moreover have "afterFeeRounds 1 s ?t"
            by (rule round_mined [OF g w]) (simp add: roundsStarted_def)
          ultimately show ?thesis unfolding k by (rule afterFeeRounds_step [rotated])
        qed
      qed
    qed
  qed
qed

section \<open>Fee scheduler\<close>

lemma singleton_config:
  "config (devFeeManager cwd newId) =
     \<lparr>enabled = True, apiUrl = ''https://miner.ada.markets/api/get-dev-address'', ratio = 25,
      cacheFile = cwd @ ''/.devfee_cache.json'', clientId = newId\<rparr>"
  by (simp add: devFeeManager_def DevFeeManager_new_def noOverrides_def orElse_def
        loadCache_default_def Let_def)

text \<open>
  A fee-flagged mining whose first answer holds a fresh accepted digest, and whose
  submission is accepted, returns with one submission more; a catch-up in which every
  round goes that way returns with one submission per round.
\<close>

lemma scan_hit:
  "find ok hs = Some h \<Longrightarrow> h \<notin> S \<Longrightarrow> k + length (takeWhile (\<lambda>x. \<not> ok x) hs) < n
     \<Longrightarrow> scanHashes ok S n k hs = Hit (k + length (takeWhile (\<lambda>x. \<not> ok x) hs)) h"
proof (induction hs arbitrary: k)
  case Nil
  then show ?case by simp
next
  case (Cons x xs)
  show ?case
  proof (cases "ok x")
    case True
    with Cons.prems show ?thesis by simp
  next
    case False
    with Cons.prems have "find ok xs = Some h" "(k + 1) + length (takeWhile (\<lambda>x. \<not> ok x) xs) < n"
      by simp_all
    from Cons.IH [OF this(1) Cons.prems(2) this(2)] False Cons.prems(3) show ?thesis by simp
  qed
qed

lemma getDevFeeAddress_ok:
  assumes "isEnabled m" and "fetchAttempt r = Inr x"
  shows "\<exists>a m'. getDevFeeAddress now tnow r m = (Inr a, m')"
  using assms
  by (cases x) (auto simp: getDevFeeAddress_def fetchDevFeeAddress_def split: option.splits)

text \<open>One fee-flagged mining that finds its digest in the first answer and is accepted.\<close>

lemma mineForAddress_fee_hit:
  assumes rdy: "readyToMine t" and ch: "currentChallenge t = Some ch"
    and hb: "hashBatchAsync env = Hashes hs # later"
    and fd: "find (\<lambda>h. matchesDifficulty ext h (difficulty ch)) hs = Some h"
    and fresh: "h \<notin> submittedSolutions t"
    and pos: "length (takeWhile (\<lambda>h. \<not> matchesDifficulty ext h (difficulty ch)) hs) < BATCH_SIZE"
    and po: "postOutcome (axiosPost env) = Inr crypto"
  shows "\<exists>t'. mineForAddress ext env addr True t = Some (Inr (), t')
      \<and> readyToMine t' \<and> currentChallenge t' = currentChallenge t
      \<and> currentChallengeId t' = currentChallengeId t
      \<and> config (devFee t') = config (devFee t)
      \<and> submittedSolutions t' = insert h (submittedSolutions t)
      \<and> submissions (trace t') = submissions (trace t) + 1
      \<and> getTotalDevFeeSolutions (devFee t') = getTotalDevFeeSolutions (devFee t) + 1
      \<and> length (feeReceipts (receipts t')) = length (feeReceipts (receipts t)) + 1
      \<and> userSolutionsCount t' = userSolutionsCount t"
proof -
  from rdy obtain cid where cid: "currentChallengeId t = Some cid" "cid \<noteq> []"
    by (auto simp: readyToMine_def truthy_def split: option.splits)
  from rdy have fl: "isRunning t" "isMining t" "walletManager t" "romReady t"
    by (simp_all add: readyToMine_def)
  let ?t0 = "emit (MiningStart (bech32 addr) (index addr) cid)
     (t\<lparr>addressesProcessedCurrentChallenge := insert (index addr) (addressesProcessedCurrentChallenge t)\<rparr>)"
  let ?t1 = "?t0\<lparr>totalHashesComputed := totalHashesComputed ?t0 + length hs\<rparr>"
  let ?k = "length (takeWhile (\<lambda>h. \<not> matchesDifficulty ext h (difficulty ch)) hs)"
  let ?bd = "map (candidateAt ext (rnd env) 0 (bech32 addr) ch) [0..<BATCH_SIZE]"
  have ne: "hs \<noteq> []" using fd by auto
  have sc: "scanHashes (\<lambda>h. matchesDifficulty ext h (difficulty ch)) (submittedSolutions ?t1)
      (length ?bd) 0 hs = Hit ?k h"
    using scan_hit [OF fd, of "submittedSolutions ?t1" 0 "length ?bd"] fresh pos
    by (simp add: emit_def)
  have run: "isRunning ?t0 \<and> isMining ?t0 \<and> currentChallengeId ?t0 = Some cid"
    using fl cid by (simp add: emit_def)
  have loop: "mineLoop ext env addr True cid ch 0 0 (Hashes hs # later) ?t0
      = Some (Inr (), onSolutionFound env addr True cid (fst (?bd ! ?k)) h (snd (?bd ! ?k)) ?t1)"
    using run ne sc by (simp add: buildBatch_eq Let_def del: length_map nth_map)
  have m: "mineForAddress ext env addr True t
      = Some (Inr (), onSolutionFound env addr True cid (fst (?bd ! ?k)) h (snd (?bd ! ?k)) ?t1)"
    using ch cid fl hb loop by (simp add: mineForAddress_def)
  let ?t3 = "emit (SolutionSubmit (bech32 addr) (index addr) cid (fst (?bd ! ?k)) (take 50 (snd (?bd ! ?k)) @ ''...''))
     (?t1\<lparr>submittedSolutions := insert h (submittedSolutions ?t1),
          solvedAddressChallenges := markSolved (bech32 addr) cid (solvedAddressChallenges ?t1)\<rparr>)"
  have g: "currentChallengeId ?t3 = Some cid" "walletManager ?t3"
    using cid fl by (simp_all add: emit_def)
  have o: "onSolutionFound env addr True cid (fst (?bd ! ?k)) h (snd (?bd ! ?k)) ?t1
      = submitSolution (submitNow env) (axiosPost env) addr (fst (?bd ! ?k)) h (snd (?bd ! ?k)) True ?t3"
    by (simp add: onSolutionFound_def Let_def)
  show ?thesis
    unfolding m o submitSolution_accepted [OF g(1) cid(2) g(2) po]
    using rdy ch cid
    by (simp add: readyToMine_def emit_def submissions_def feeReceipts_def
          recordDevFeeSolution_def getTotalDevFeeSolutions_def truthy_def)
qed

lemma firstBatch_find:
  "find ok (firstBatch env) = Some h \<Longrightarrow> \<exists>later. hashBatchAsync env = Hashes (firstBatch env) # later"
  by (auto simp: firstBatch_def split: list.splits hash_result.splits)

lemma devFeeRounds_succeed:
  assumes all: "feeRoundsSucceed ext s envs n" and en: "isEnabled (devFee s)"
  shows "i \<le> n \<Longrightarrow> readyToMine t \<Longrightarrow> currentChallenge t = currentChallenge s
     \<Longrightarrow> config (devFee t) = config (devFee s)
     \<Longrightarrow> submittedSolutions t \<subseteq> submittedSolutions s \<union> {h. \<exists>j<i. roundDigest ext s (envs j) = Some h}
     \<Longrightarrow> \<exists>s'. devFeeRounds ext envs n i t = Some s'
          \<and> submissions (trace s') = submissions (trace t) + (n - i)
          \<and> getTotalDevFeeSolutions (devFee s') = getTotalDevFeeSolutions (devFee t) + (n - i)
          \<and> length (feeReceipts (receipts s')) = length (feeReceipts (receipts t)) + (n - i)
          \<and> userSolutionsCount s' = userSolutionsCount t"
proof (induction "n - i" arbitrary: i t)
  case 0
  then have "i = n" by simp
  then show ?case by (subst devFeeRounds.simps) simp
next
  case (Suc k)
  then have lt: "i < n" by simp
  from Suc.prems(2) obtain ch where cht: "currentChallenge t = Some ch"
    by (auto simp: readyToMine_def)
  with Suc.prems(3) have chs: "currentChallenge s = Some ch" by simp
  have acc: "accepted ext s = (\<lambda>h. matchesDifficulty ext h (difficulty ch))"
    by (rule ext) (simp add: accepted_def chs)
  from all lt have ok: "feeRoundSucceeds ext s (envs i)"
    and dist: "\<forall>j<i. roundDigest ext s (envs j) \<noteq> roundDigest ext s (envs i)"
    by (simp_all add: feeRoundsSucceed_def)
  from ok obtain x where fa: "fetchAttempt (feeFetch (envs i)) = Inr x"
    by (auto simp: feeRoundSucceeds_def split: sum.splits)
  from ok obtain h where rd: "roundDigest ext s (envs i) = Some h" and hs: "h \<notin> submittedSolutions s"
    by (auto simp: feeRoundSucceeds_def split: option.splits)
  from ok obtain crypto where po: "postOutcome (axiosPost (feeMine (envs i))) = Inr crypto"
    by (auto simp: feeRoundSucceeds_def split: sum.splits)
  let ?hs = "firstBatch (feeMine (envs i))"
  from ok have pos: "length (takeWhile (\<lambda>h. \<not> matchesDifficulty ext h (difficulty ch)) ?hs) < BATCH_SIZE"
    by (simp add: feeRoundSucceeds_def acc)
  from rd have fd: "find (\<lambda>h. matchesDifficulty ext h (difficulty ch)) ?hs = Some h"
    by (simp add: roundDigest_def acc)
  from firstBatch_find [OF fd] obtain later where hb: "hashBatchAsync (feeMine (envs i)) = Hashes ?hs # later"
    by blast
  from dist rd have "\<forall>j<i. roundDigest ext s (envs j) \<noteq> Some h" by simp
  with hs Suc.prems(5) have fresh: "h \<notin> submittedSolutions t" by blast
  let ?t0 = "consoleLog (LogDevFeeFetching (i + 1) n) t"
  have ent: "isEnabled (devFee ?t0)"
    using en Suc.prems(4) by (simp add: isEnabled_def consoleLog_def)
  from getDevFeeAddress_ok [OF ent fa]
  obtain a m where g: "getDevFeeAddress (feeNow (envs i)) (feeFetchNow (envs i)) (feeFetch (envs i)) (devFee ?t0) = (Inr a, m)"
    by blast
  from getDevFeeAddress_frame [OF g]
  have mf: "config m = config (devFee t)" "getTotalDevFeeSolutions m = getTotalDevFeeSolutions (devFee t)"
    by (simp_all add: consoleLog_def)
  let ?t1 = "?t0\<lparr>devFee := m\<rparr>"
  have r1: "readyToMine ?t1" "currentChallenge ?t1 = Some ch" "h \<notin> submittedSolutions ?t1"
    using Suc.prems(2) cht fresh by (simp_all add: readyToMine_def consoleLog_def)
  from mineForAddress_fee_hit [OF r1(1,2) hb fd r1(3) pos po, of "devFeeAddr a"]
  obtain t2 where m2: "mineForAddress ext (feeMine (envs i)) (devFeeAddr a) True ?t1 = Some (Inr (), t2)"
    and p2: "readyToMine t2" "currentChallenge t2 = currentChallenge ?t1"
      "config (devFee t2) = config (devFee ?t1)"
      "submittedSolutions t2 = insert h (submittedSolutions ?t1)"
      "submissions (trace t2) = submissions (trace ?t1) + 1"
      "getTotalDevFeeSolutions (devFee t2) = getTotalDevFeeSolutions (devFee ?t1) + 1"
      "length (feeReceipts (receipts t2)) = length (feeReceipts (receipts ?t1)) + 1"
      "userSolutionsCount t2 = userSolutionsCount ?t1"
    by blast
  let ?t3 = "consoleLog (LogDevFeeCompleted (i + 1) n) t2"
  have step: "devFeeRounds ext envs n i t = devFeeRounds ext envs n (i + 1) ?t3"
    using lt g m2 by (subst devFeeRounds.simps) (simp add: Let_def)
  have k: "k = n - (i + 1)" using Suc.hyps(2) by simp
  have le: "i + 1 \<le> n" using lt by simp
  have i3: "readyToMine ?t3" "currentChallenge ?t3 = currentChallenge s"
    "config (devFee ?t3) = config (devFee s)"
    using p2(1,2,3) r1(2) chs mf(1) Suc.prems(4) by (simp_all add: readyToMine_def consoleLog_def)
  have sub: "submittedSolutions ?t3
      \<subseteq> submittedSolutions s \<union> {h. \<exists>j<i + 1. roundDigest ext s (envs j) = Some h}"
  proof (rule subsetI)
    fix x assume "x \<in> submittedSolutions ?t3"
    then have "x = h \<or> x \<in> submittedSolutions t"
      using p2(4) by (simp add: consoleLog_def)
    then show "x \<in> submittedSolutions s \<union> {h. \<exists>j<i + 1. roundDigest ext s (envs j) = Some h}"
    proof
      assume "x = h"
      moreover have "i < i + 1" by simp
      ultimately have "\<exists>j<i + 1. roundDigest ext s (envs j) = Some x" using rd by blast
      then show ?thesis by simp
    next
      assume "x \<in> submittedSolutions t"
      with Suc.prems(5) have "x \<in> submittedSolutions s \<or> (\<exists>j<i. roundDigest ext s (envs j) = Some x)"
        by blast
      then show ?thesis
      proof
        assume "x \<in> submittedSolutions s"
        then show ?thesis by simp
      next
        assume "\<exists>j<i. roundDigest ext s (envs j) = Some x"
        then obtain j where j: "j < i" "roundDigest ext s (envs j) = Some x" by blast
        from j(1) have "j < i + 1" by simp
        with j(2) have "\<exists>j<i + 1. roundDigest ext s (envs j) = Some x" by blast
        then show ?thesis by simp
      qed
    qed
  qed
  from Suc.hyps(1) [OF k le i3 sub]
  obtain s' where fin: "devFeeRounds ext envs n (i + 1) ?t3 = Some s'"
    and c: "submissions (trace s') = submissions (trace ?t3) + (n - (i + 1))"
      "getTotalDevFeeSolutions (devFee s') = getTotalDevFeeSolutions (devFee ?t3) + (n - (i + 1))"
      "length (feeReceipts (receipts s')) = length (feeReceipts (receipts ?t3)) + (n - (i + 1))"
      "userSolutionsCount s' = userSolutionsCount ?t3"
    by blast
  have d: "n - i = Suc (n - (i + 1))" using lt by simp
  have "submissions (trace s') = submissions (trace t) + (n - i)"
    "getTotalDevFeeSolutions (devFee s') = getTotalDevFeeSolutions (devFee t) + (n - i)"
    "length (feeReceipts (receipts s')) = length (feeReceipts (receipts t)) + (n - i)"
    "userSolutionsCount s' = userSolutionsCount t"
    using c p2(5-8) mf(2) unfolding d by (simp_all add: consoleLog_def)
  with step fin show ?case by simp
qed

text \<open>Evaluation of the example catch-ups: the definitions unfolded along the way.\<close>

lemmas ex_eval =
  exState_def devFeeManager_def DevFeeManager_new_def noOverrides_def Let_def isEnabled_def orElse_def
  loadCache_default_def getDevFeeAddress_def fetchDevFeeAddress_def fetchAttempt_def startsWith_def
  consoleLog_def mineForAddress_def exChallenge_def emit_def devFeeAddr_def buildBatch_eq BATCH_SIZE_def
  exCollaborators_def onSolutionFound_def submitSolution_def postOutcome_def recordDevFeeSolution_def
  progress_def markSolved_def ONE_HOUR_def getRatio_def getTotalDevFeeSolutions_def spawn_def
  candidateAt_def nonceAt_def

lemma exFeeRoundsFail_start:
  "checkAndMineDevFee exCollaborators exFeeRoundsFail exState
      = devFeeRounds exCollaborators exFeeRoundsFail 2 0 exState"
  by (simp add: checkAndMineDevFee_def exState_def devFeeManager_def DevFeeManager_new_def
        noOverrides_def Let_def isEnabled_def orElse_def loadCache_default_def getRatio_def
        getTotalDevFeeSolutions_def)

lemma exFeeRoundsFail_run:
  "\<exists>s'. checkAndMineDevFee exCollaborators exFeeRoundsFail exState = Some s'
     \<and> console s' = [LogDevFeeFetching 1 2, LogDevFeeFailed 1 2 (DevFeeFetchFailed ''timeout''),
                      LogDevFeeFetching 2 2, LogDevFeeCompleted 2 2]
     \<and> submissions (trace s') = 1
     \<and> getTotalDevFeeSolutions (devFee s') = 1"
  unfolding exFeeRoundsFail_start
  apply (subst devFeeRounds.simps)
  apply (simp add: ex_eval exFeeRoundsFail_def)
  apply (subst devFeeRounds.simps)
  apply (simp add: ex_eval exFeeRoundsFail_def)
  apply (subst devFeeRounds.simps)
  apply (simp add: submissions_def)
  done

text \<open>
  Claim C4 as stated: with fee solutions owed, the scheduler mines and submits exactly
  \<open>expected - paid\<close> fee solutions. A round that fails is caught and the loop goes on
  (``Continue to next dev fee attempt even if one fails''), and the bound of the loop was
  fixed before: with 50 user solutions counted and none paid, a catch-up whose first
  round cannot reach the assignment service returns after two rounds with one fee
  solution submitted and paid, one short of the two owed.
\<close>

theorem fee_catch_up_submits_all_owed_counterexample:
  "getRatio (devFee exState) = 25
   \<and> userSolutionsCount exState div 25 - getTotalDevFeeSolutions (devFee exState) = 2
   \<and> (\<exists>s'. checkAndMineDevFee exCollaborators exFeeRoundsFail exState = Some s'
         \<and> console s' = [LogDevFeeFetching 1 2, LogDevFeeFailed 1 2 (DevFeeFetchFailed ''timeout''),
                          LogDevFeeFetching 2 2, LogDevFeeCompleted 2 2]
         \<and> submissions (trace s') = 1
         \<and> getTotalDevFeeSolutions (devFee s') = 1)"
proof -
  have "getRatio (devFee exState) = 25"
    "userSolutionsCount exState div 25 - getTotalDevFeeSolutions (devFee exState) = 2"
    by (simp_all add: exState_def devFeeManager_def DevFeeManager_new_def noOverrides_def Let_def
          loadCache_default_def getTotalDevFeeSolutions_def getRatio_def)
  with exFeeRoundsFail_run show ?thesis by (intro conjI)
qed

text \<open>
  Claim C4, amended. With the configuration of the singleton dev fee manager (enabled,
  ratio 25), for every value of the user-solutions counter and of the count of fee
  solutions paid, the scheduler computes \<open>expected = userSolutionsCount div 25\<close>.
  If \<open>expected\<close> exceeds the count paid, it runs \<open>expected - paid\<close> rounds one after the
  other, each a fee-flagged mining for the recipient with at most one submission, a round
  that fails not stopping the next ones: whenever the catch-up returns, exactly
  \<open>expected - paid\<close> rounds were started, at most that many fee solutions were submitted,
  the count paid went up, never beyond \<open>expected\<close>, and the user-solutions counter is
  untouched. When the orchestrator is ready to mine and every round goes well (a valid
  recipient, a fresh accepted digest in the first answer of the hash service, a 2xx
  answer to the submission), the catch-up does return, and it has submitted exactly
  \<open>expected - paid\<close> fee solutions, written as many fee receipts and brought the count
  paid to \<open>expected\<close>. If \<open>expected\<close> equals the count paid, the scheduler only prints that
  the fees are up to date. If \<open>expected\<close> is below the count paid, it only prints the
  warning, and the count paid is not decreased.
\<close>

theorem checkAndMineDevFee_catch_up:
  assumes "config (devFee s) = config (devFeeManager cwd newId)"
  shows "getRatio (devFee s) = 25
     \<and> (getTotalDevFeeSolutions (devFee s) < userSolutionsCount s div 25 \<longrightarrow>
          (\<forall>s'. checkAndMineDevFee ext envs s = Some s' \<longrightarrow>
             roundsStarted (console s')
               = roundsStarted (console s) + (userSolutionsCount s div 25 - getTotalDevFeeSolutions (devFee s))
             \<and> submissions (trace s')
               \<le> submissions (trace s) + (userSolutionsCount s div 25 - getTotalDevFeeSolutions (devFee s))
             \<and> getTotalDevFeeSolutions (devFee s) \<le> getTotalDevFeeSolutions (devFee s')
             \<and> getTotalDevFeeSolutions (devFee s') \<le> userSolutionsCount s div 25
             \<and> userSolutionsCount s' = userSolutionsCount s))
     \<and> (getTotalDevFeeSolutions (devFee s) < userSolutionsCount s div 25
          \<and> readyToMine s
          \<and> feeRoundsSucceed ext s envs (userSolutionsCount s div 25 - getTotalDevFeeSolutions (devFee s)) \<longrightarrow>
          (\<exists>s'. checkAndMineDevFee ext envs s = Some s'
             \<and> roundsStarted (console s')
               = roundsStarted (console s) + (userSolutionsCount s div 25 - getTotalDevFeeSolutions (devFee s))
             \<and> submissions (trace s')
               = submissions (trace s) + (userSolutionsCount s div 25 - getTotalDevFeeSolutions (devFee s))
             \<and> length (feeReceipts (receipts s'))
               = length (feeReceipts (receipts s)) + (userSolutionsCount s div 25 - getTotalDevFeeSolutions (devFee s))
             \<and> getTotalDevFeeSolutions (devFee s') = userSolutionsCount s div 25
             \<and> userSolutionsCount s' = userSolutionsCount s))
     \<and> (userSolutionsCount s div 25 = getTotalDevFeeSolutions (devFee s) \<longrightarrow>
          checkAndMineDevFee ext envs s = Some (consoleLog LogDevFeeUpToDate s))
     \<and> (userSolutionsCount s div 25 < getTotalDevFeeSolutions (devFee s) \<longrightarrow>
          checkAndMineDevFee ext envs s = Some (consoleLog LogDevFeeAhead s))"
proof -
  have en: "isEnabled (devFee s)" and ra: "getRatio (devFee s) = 25"
    using assms by (simp_all add: singleton_config isEnabled_def getRatio_def)
  let ?e = "userSolutionsCount s div 25" and ?p = "getTotalDevFeeSolutions (devFee s)"
  have n: "nat (int ?e - int ?p) = ?e - ?p" by simp
  have behind: "checkAndMineDevFee ext envs s = devFeeRounds ext envs (?e - ?p) 0 s" if "?p < ?e"
  proof -
    from that have "int ?e - int ?p > 0" by simp
    with en ra n show ?thesis by (simp add: checkAndMineDevFee_def Let_def del: of_nat_diff)
  qed
  have fr: "afterFeeRounds (?e - ?p) s s'" if "?p < ?e" and "checkAndMineDevFee ext envs s = Some s'" for s'
    using devFeeRounds_frame [of ext envs "?e - ?p" 0 s s'] that behind by simp
  have a: "?p < ?e \<longrightarrow> (\<forall>s'. checkAndMineDevFee ext envs s = Some s' \<longrightarrow>
             roundsStarted (console s') = roundsStarted (console s) + (?e - ?p)
             \<and> submissions (trace s') \<le> submissions (trace s) + (?e - ?p)
             \<and> ?p \<le> getTotalDevFeeSolutions (devFee s')
             \<and> getTotalDevFeeSolutions (devFee s') \<le> ?e
             \<and> userSolutionsCount s' = userSolutionsCount s)"
  proof (intro impI allI)
    fix s' assume lt: "?p < ?e" and r: "checkAndMineDevFee ext envs s = Some s'"
    from fr [OF lt r] lt show "roundsStarted (console s') = roundsStarted (console s) + (?e - ?p)
             \<and> submissions (trace s') \<le> submissions (trace s) + (?e - ?p)
             \<and> ?p \<le> getTotalDevFeeSolutions (devFee s')
             \<and> getTotalDevFeeSolutions (devFee s') \<le> ?e
             \<and> userSolutionsCount s' = userSolutionsCount s"
      unfolding afterFeeRounds_def by linarith
  qed
  have t: "?p < ?e \<and> readyToMine s \<and> feeRoundsSucceed ext s envs (?e - ?p) \<longrightarrow>
          (\<exists>s'. checkAndMineDevFee ext envs s = Some s'
             \<and> roundsStarted (console s') = roundsStarted (console s) + (?e - ?p)
             \<and> submissions (trace s') = submissions (trace s) + (?e - ?p)
             \<and> length (feeReceipts (receipts s')) = length (feeReceipts (receipts s)) + (?e - ?p)
             \<and> getTotalDevFeeSolutions (devFee s') = ?e
             \<and> userSolutionsCount s' = userSolutionsCount s)"
  proof (intro impI, elim conjE)
    assume lt: "?p < ?e" and rdy: "readyToMine s" and all: "feeRoundsSucceed ext s envs (?e - ?p)"
    have sub: "submittedSolutions s
        \<subseteq> submittedSolutions s \<union> {h. \<exists>j<0. roundDigest ext s (envs j) = Some h}"
      by simp
    from devFeeRounds_succeed [OF all en, of 0 s, OF _ rdy refl refl sub]
    obtain s' where r: "devFeeRounds ext envs (?e - ?p) 0 s = Some s'"
      and c: "submissions (trace s') = submissions (trace s) + (?e - ?p - 0)"
        "getTotalDevFeeSolutions (devFee s') = ?p + (?e - ?p - 0)"
        "length (feeReceipts (receipts s')) = length (feeReceipts (receipts s)) + (?e - ?p - 0)"
        "userSolutionsCount s' = userSolutionsCount s"
      by auto
    from r behind [OF lt] have r': "checkAndMineDevFee ext envs s = Some s'" by simp
    from fr [OF lt r'] have "roundsStarted (console s') = roundsStarted (console s) + (?e - ?p)"
      by (simp add: afterFeeRounds_def)
    moreover from c(2) lt have "getTotalDevFeeSolutions (devFee s') = ?e" by simp
    ultimately show "\<exists>s'. checkAndMineDevFee ext envs s = Some s'
             \<and> roundsStarted (console s') = roundsStarted (console s) + (?e - ?p)
             \<and> submissions (trace s') = submissions (trace s) + (?e - ?p)
             \<and> length (feeReceipts (receipts s')) = length (feeReceipts (receipts s)) + (?e - ?p)
             \<and> getTotalDevFeeSolutions (devFee s') = ?e
             \<and> userSolutionsCount s' = userSolutionsCount s"
      using r' c(1,3,4) by simp
  qed
  have b: "?e = ?p \<longrightarrow> checkAndMineDevFee ext envs s = Some (consoleLog LogDevFeeUpToDate s)"
    using en ra by (simp add: checkAndMineDevFee_def Let_def)
  have c: "?e < ?p \<longrightarrow> checkAndMineDevFee ext envs s = Some (consoleLog LogDevFeeAhead s)"
    using en ra by (simp add: checkAndMineDevFee_def Let_def)
  from ra a t b c show ?thesis by (intro conjI)
qed

lemma exFeeRounds_succeed: "feeRoundsSucceed exCollaborators exState exFeeRounds 2"
proof -
  have r: "roundDigest exCollaborators exState (exFeeRounds 0) = Some ''00aa''"
    "roundDigest exCollaborators exState (exFeeRounds 1) = Some ''00bb''"
    by (simp_all add: roundDigest_def firstBatch_def accepted_def exFeeRounds_def exState_def
          exCollaborators_def exChallenge_def startsWith_def)
  have a: "accepted exCollaborators exState = (\<lambda>h. startsWith h ''00'')"
    by (rule ext) (simp add: accepted_def exState_def exCollaborators_def)
  have s: "feeRoundSucceeds exCollaborators exState (exFeeRounds 0)"
    "feeRoundSucceeds exCollaborators exState (exFeeRounds 1)"
    unfolding feeRoundSucceeds_def r a
    by (simp_all add: exFeeRounds_def firstBatch_def fetchAttempt_def startsWith_def
          postOutcome_def BATCH_SIZE_def exState_def)
  have "i < 2 \<Longrightarrow> feeRoundSucceeds exCollaborators exState (exFeeRounds i)
      \<and> (\<forall>j<i. roundDigest exCollaborators exState (exFeeRounds j)
                  \<noteq> roundDigest exCollaborators exState (exFeeRounds i))" for i
  proof -
    assume "i < 2"
    then have "i = 0 \<or> i = 1" by auto
    then show ?thesis
    proof
      assume "i = 0"
      with s(1) show ?thesis by simp
    next
      assume i: "i = 1"
      have "j < 1 \<Longrightarrow> j = 0" for j :: nat by simp
      with s(2) r i show ?thesis by auto
    qed
  qed
  then show ?thesis by (simp add: feeRoundsSucceed_def)
qed

theorem checkAndMineDevFee_catch_up_witness:
  "config (devFee exState) = config (devFeeManager ''/app'' ''desktop-1'')
   \<and> getTotalDevFeeSolutions (devFee exState) < userSolutionsCount exState div 25
   \<and> readyToMine exState
   \<and> feeRoundsSucceed exCollaborators exState exFeeRounds 2
   \<and> (\<exists>s'. checkAndMineDevFee exCollaborators exFeeRounds exState = Some s'
         \<and> roundsStarted (console s') = 2
         \<and> submissions (trace s') = 2
         \<and> length (feeReceipts (receipts s')) = 2
         \<and> getTotalDevFeeSolutions (devFee s') = 2)
   \<and> (\<exists>s'. checkAndMineDevFee exCollaborators exFeeRoundsFail exState = Some s'
         \<and> console s' = [LogDevFeeFetching 1 2, LogDevFeeFailed 1 2 (DevFeeFetchFailed ''timeout''),
                          LogDevFeeFetching 2 2, LogDevFeeCompleted 2 2]
         \<and> roundsStarted (console s') = 2
         \<and> submissions (trace s') = 1
         \<and> getTotalDevFeeSolutions (devFee s') = 1)
   \<and> userSolutionsCount (exState\<lparr>userSolutionsCount := 10\<rparr>) div 25
       = getTotalDevFeeSolutions (devFee (exState\<lparr>userSolutionsCount := 10\<rparr>))
   \<and> checkAndMineDevFee exCollaborators exFeeRoundsFail (exState\<lparr>userSolutionsCount := 10\<rparr>)
       = Some (consoleLog LogDevFeeUpToDate (exState\<lparr>userSolutionsCount := 10\<rparr>))
   \<and> userSolutionsCount (exState\<lparr>devFee := recordDevFeeSolution (devFee exState), userSolutionsCount := 10\<rparr>) div 25
       < getTotalDevFeeSolutions (devFee (exState\<lparr>devFee := recordDevFeeSolution (devFee exState), userSolutionsCount := 10\<rparr>))
   \<and> checkAndMineDevFee exCollaborators exFeeRoundsFail
         (exState\<lparr>devFee := recordDevFeeSolution (devFee exState), userSolutionsCount := 10\<rparr>)
       = Some (consoleLog LogDevFeeAhead
           (exState\<lparr>devFee := recordDevFeeSolution (devFee exState), userSolutionsCount := 10\<rparr>))"
proof -
  let ?s2 = "exState\<lparr>userSolutionsCount := 10\<rparr>"
  let ?s3 = "exState\<lparr>devFee := recordDevFeeSolution (devFee exState), userSolutionsCount := 10\<rparr>"
  have cfg: "config (devFee exState) = config (devFeeManager ''/app'' ''desktop-1'')"
    by (simp add: exState_def)
  have cfg2: "config (devFee ?s2) = config (devFeeManager ''/app'' ''desktop-1'')"
    by (simp add: exState_def)
  have cfg3: "config (devFee ?s3) = config (devFeeManager ''/app'' ''desktop-1'')"
    by (simp add: exState_def recordDevFeeSolution_def)
  have tot: "getTotalDevFeeSolutions (devFee exState) = 0"
    by (simp add: exState_def devFeeManager_def DevFeeManager_new_def noOverrides_def Let_def
          loadCache_default_def getTotalDevFeeSolutions_def)
  have cnt: "userSolutionsCount exState = 50"
    by (simp add: exState_def)
  have lt: "getTotalDevFeeSolutions (devFee exState) < userSolutionsCount exState div 25"
    unfolding tot cnt by simp
  have owed: "userSolutionsCount exState div 25 - getTotalDevFeeSolutions (devFee exState) = 2"
    unfolding tot cnt by simp
  have eq: "userSolutionsCount ?s2 div 25 = getTotalDevFeeSolutions (devFee ?s2)"
    using tot by simp
  have gt: "userSolutionsCount ?s3 div 25 < getTotalDevFeeSolutions (devFee ?s3)"
    by (simp add: recordDevFeeSolution_def getTotalDevFeeSolutions_def)
  have st: "roundsStarted (console exState) = 0" "submissions (trace exState) = 0"
    "length (feeReceipts (receipts exState)) = 0"
    by (simp_all add: exState_def roundsStarted_def submissions_def feeReceipts_def)
  have rdy: "readyToMine exState"
    by (simp add: readyToMine_def exState_def truthy_def)
  note all = exFeeRounds_succeed
  have all': "feeRoundsSucceed exCollaborators exState exFeeRounds
      (userSolutionsCount exState div 25 - getTotalDevFeeSolutions (devFee exState))"
    unfolding owed by (rule all)
  from checkAndMineDevFee_catch_up [OF cfg, of exCollaborators exFeeRounds] lt rdy all'
  have "\<exists>s'. checkAndMineDevFee exCollaborators exFeeRounds exState = Some s'
         \<and> roundsStarted (console s') = roundsStarted (console exState)
              + (userSolutionsCount exState div 25 - getTotalDevFeeSolutions (devFee exState))
         \<and> submissions (trace s') = submissions (trace exState)
              + (userSolutionsCount exState div 25 - getTotalDevFeeSolutions (devFee exState))
         \<and> length (feeReceipts (receipts s')) = length (feeReceipts (receipts exState))
              + (userSolutionsCount exState div 25 - getTotalDevFeeSolutions (devFee exState))
         \<and> getTotalDevFeeSolutions (devFee s') = userSolutionsCount exState div 25
         \<and> userSolutionsCount s' = userSolutionsCount exState"
    by blast
  then obtain u where u: "checkAndMineDevFee exCollaborators exFeeRounds exState = Some u"
    "roundsStarted (console u) = roundsStarted (console exState)
       + (userSolutionsCount exState div 25 - getTotalDevFeeSolutions (devFee exState))"
    "submissions (trace u) = submissions (trace exState)
       + (userSolutionsCount exState div 25 - getTotalDevFeeSolutions (devFee exState))"
    "length (feeReceipts (receipts u)) = length (feeReceipts (receipts exState))
       + (userSolutionsCount exState div 25 - getTotalDevFeeSolutions (devFee exState))"
    "getTotalDevFeeSolutions (devFee u) = userSolutionsCount exState div 25"
    by blast
  have u2: "roundsStarted (console u) = 2" "submissions (trace u) = 2"
    "length (feeReceipts (receipts u)) = 2" "getTotalDevFeeSolutions (devFee u) = 2"
    using u(2-5) unfolding owed st by (simp_all add: cnt)
  with u(1) have good: "\<exists>s'. checkAndMineDevFee exCollaborators exFeeRounds exState = Some s'
         \<and> roundsStarted (console s') = 2
         \<and> submissions (trace s') = 2
         \<and> length (feeReceipts (receipts s')) = 2
         \<and> getTotalDevFeeSolutions (devFee s') = 2"
    by blast
  obtain s' where run: "checkAndMineDevFee exCollaborators exFeeRoundsFail exState = Some s'"
    and con: "console s' = [LogDevFeeFetching 1 2, LogDevFeeFailed 1 2 (DevFeeFetchFailed ''timeout''),
                      LogDevFeeFetching 2 2, LogDevFeeCompleted 2 2]"
    and sub: "submissions (trace s') = 1" and tot': "getTotalDevFeeSolutions (devFee s') = 1"
    using exFeeRoundsFail_run by blast
  note main = checkAndMineDevFee_catch_up [OF cfg, of exCollaborators exFeeRoundsFail]
  from main lt run have "roundsStarted (console s')
      = roundsStarted (console exState) + (userSolutionsCount exState div 25 - getTotalDevFeeSolutions (devFee exState))"
    by blast
  then have rs: "roundsStarted (console s') = 2"
    unfolding st owed by simp
  from run con rs sub tot' have ex: "\<exists>s'. checkAndMineDevFee exCollaborators exFeeRoundsFail exState = Some s'
         \<and> console s' = [LogDevFeeFetching 1 2, LogDevFeeFailed 1 2 (DevFeeFetchFailed ''timeout''),
                          LogDevFeeFetching 2 2, LogDevFeeCompleted 2 2]
         \<and> roundsStarted (console s') = 2
         \<and> submissions (trace s') = 1
         \<and> getTotalDevFeeSolutions (devFee s') = 1"
    by blast
  from checkAndMineDevFee_catch_up [OF cfg2, of exCollaborators exFeeRoundsFail] eq
  have up: "checkAndMineDevFee exCollaborators exFeeRoundsFail ?s2 = Some (consoleLog LogDevFeeUpToDate ?s2)"
    by blast
  from checkAndMineDevFee_catch_up [OF cfg3, of exCollaborators exFeeRoundsFail] gt
  have ah: "checkAndMineDevFee exCollaborators exFeeRoundsFail ?s3 = Some (consoleLog LogDevFeeAhead ?s3)"
    by blast
  from cfg lt rdy all good ex eq up gt ah show ?thesis by (intro conjI)
qed

section \<open>Per-identity miner: the first accepted digest\<close>

text \<open>
  On the branch for an accepted digest that is not in the Submitted-Hash Set, the hash is
  in the set and the pair is marked solved in the state that \<^verbatim>\<open>submitSolution\<close> receives;
  the trace continues with the \<^verbatim>\<open>solution_submit\<close> event and then the network submission.
\<close>

lemma onSolutionFound_order:
  assumes "currentChallengeId s = Some cid" and "cid \<noteq> []" and "walletManager s"
  shows "\<exists>rest. trace (onSolutionFound env addr isDevFee challengeId nonce hash preimage s)
            = trace s @ [Emit (SolutionSubmit (bech32 addr) (index addr) challengeId nonce (take 50 preimage @ ''...'')),
                         Post (bech32 addr) cid nonce] @ rest"
    and "hash \<in> submittedSolutions (onSolutionFound env addr isDevFee challengeId nonce hash preimage s)"
    and "isSolved (solvedAddressChallenges (onSolutionFound env addr isDevFee challengeId nonce hash preimage s))
           (bech32 addr) challengeId"
proof -
  let ?s3 = "emit (SolutionSubmit (bech32 addr) (index addr) challengeId nonce (take 50 preimage @ ''...''))
     (s\<lparr>submittedSolutions := insert hash (submittedSolutions s),
        solvedAddressChallenges := markSolved (bech32 addr) challengeId (solvedAddressChallenges s)\<rparr>)"
  have g: "currentChallengeId ?s3 = Some cid" "walletManager ?s3"
    using assms by (simp_all add: emit_def)
  have eq: "onSolutionFound env addr isDevFee challengeId nonce hash preimage s
      = submitSolution (submitNow env) (axiosPost env) addr nonce hash preimage isDevFee ?s3"
    by (simp add: onSolutionFound_def Let_def)
  show "\<exists>rest. trace (onSolutionFound env addr isDevFee challengeId nonce hash preimage s)
            = trace s @ [Emit (SolutionSubmit (bech32 addr) (index addr) challengeId nonce (take 50 preimage @ ''...'')),
                         Post (bech32 addr) cid nonce] @ rest"
  proof (cases "postOutcome (axiosPost env)")
    case (Inl err)
    show ?thesis
      unfolding eq submitSolution_failed [OF g(1) assms(2) g(2) Inl] by (simp add: emit_def)
  next
    case (Inr crypto)
    show ?thesis
      unfolding eq submitSolution_accepted [OF g(1) assms(2) g(2) Inr] by (simp add: emit_def)
  qed
  show "hash \<in> submittedSolutions (onSolutionFound env addr isDevFee challengeId nonce hash preimage s)"
    unfolding eq submitSolution_submitted by (simp add: emit_def)
  show "isSolved (solvedAddressChallenges (onSolutionFound env addr isDevFee challengeId nonce hash preimage s))
           (bech32 addr) challengeId"
    unfolding eq submitSolution_solved by (simp add: emit_def isSolved_def markSolved_def)
qed

text \<open>
  The loop ends with that branch: whatever answers of the hash service would follow, the
  function returns right after the submission.
\<close>

lemma mineLoop_first_hit:
  assumes "isRunning s" and "isMining s" and "currentChallengeId s = Some challengeId"
    and "hashes \<noteq> []"
    and "scanHashes (\<lambda>h. matchesDifficulty ext h (difficulty ch)) (submittedSolutions s)
           BATCH_SIZE 0 hashes = Hit i hash"
  shows "mineLoop ext env addr isDevFee challengeId ch b hashCount (Hashes hashes # rs) s
     = Some (Inr (),
         onSolutionFound env addr isDevFee challengeId
           (fst (map (candidateAt ext (rnd env) b (bech32 addr) ch) [0..<BATCH_SIZE] ! i)) hash
           (snd (map (candidateAt ext (rnd env) b (bech32 addr) ch) [0..<BATCH_SIZE] ! i))
           (s\<lparr>totalHashesComputed := totalHashesComputed s + length hashes\<rparr>))"
  using assms by (simp add: buildBatch_eq Let_def del: nth_map)

lemma exFeeRounds_start:
  "checkAndMineDevFee exCollaborators exFeeRounds exState
      = devFeeRounds exCollaborators exFeeRounds 2 0 exState"
  by (simp add: checkAndMineDevFee_def exState_def devFeeManager_def DevFeeManager_new_def
        noOverrides_def Let_def isEnabled_def orElse_def loadCache_default_def getRatio_def
        getTotalDevFeeSolutions_def)

lemma byteHex_1: "byteHex (Suc 0) = ''01''"
  by code_simp

lemma exFeeRounds_run:
  "\<exists>s'. checkAndMineDevFee exCollaborators exFeeRounds exState = Some s'
     \<and> trace s'
       = [Emit (MiningStart ''addr1dev'' (- 1) ''c1''),
          Emit (SolutionSubmit ''addr1dev'' (- 1) ''c1'' ''0000000000000000'' ''0000000000000000addr1devc1...''),
          Post ''addr1dev'' ''c1'' ''0000000000000000'',
          Emit (SolutionResult ''addr1dev'' (- 1) True None),
          Emit (Solution ''addr1dev'' ''c1'' ''0000000000000000''),
          Emit (MiningStart ''addr1dev'' (- 1) ''c1''),
          Emit (SolutionSubmit ''addr1dev'' (- 1) ''c1'' ''0001010101010101'' ''0001010101010101addr1devc1...''),
          Post ''addr1dev'' ''c1'' ''0001010101010101'',
          Emit (SolutionResult ''addr1dev'' (- 1) True None),
          Emit (Solution ''addr1dev'' ''c1'' ''0001010101010101'')]"
  unfolding exFeeRounds_start
  apply (subst devFeeRounds.simps)
  apply (simp add: ex_eval exFeeRounds_def upt_0_7 byteHex_0 byteHex_1)
  apply (subst devFeeRounds.simps)
  apply (simp add: ex_eval exFeeRounds_def upt_0_7 byteHex_0 byteHex_1)
  apply (subst devFeeRounds.simps)
  apply simp
  done

text \<open>
  Claim C3, evaluated on the code. The order inside the loop is as the claim says (the two
  lemmas above). Its consequence, at most one submission per (identity, challenge) pair,
  is what the code documents (``Each address should only submit ONE solution per
  challenge''; \<^verbatim>\<open>mineForAddress\<close> ``should only be called for address+challenge
  combinations that haven't been solved yet'') and what \<^verbatim>\<open>startMining\<close> enforces for user
  addresses by filtering on the Solved-Pairs map. \<^verbatim>\<open>mineForAddress\<close> itself never reads that
  map, and the dev fee loop calls it once per round for the cached recipient: with 50
  user solutions counted and no fee solution paid, the catch-up of two rounds under
  challenge \<open>c1\<close> makes two network submissions for the pair (\<open>addr1dev\<close>, \<open>c1\<close>), the
  second one after the pair was marked solved.
\<close>

theorem fee_catch_up_submits_twice_for_one_pair:
  "map_option trace (checkAndMineDevFee exCollaborators exFeeRounds exState)
     = Some [Emit (MiningStart ''addr1dev'' (- 1) ''c1''),
             Emit (SolutionSubmit ''addr1dev'' (- 1) ''c1'' ''0000000000000000'' ''0000000000000000addr1devc1...''),
             Post ''addr1dev'' ''c1'' ''0000000000000000'',
             Emit (SolutionResult ''addr1dev'' (- 1) True None),
             Emit (Solution ''addr1dev'' ''c1'' ''0000000000000000''),
             Emit (MiningStart ''addr1dev'' (- 1) ''c1''),
             Emit (SolutionSubmit ''addr1dev'' (- 1) ''c1'' ''0001010101010101'' ''0001010101010101addr1devc1...''),
             Post ''addr1dev'' ''c1'' ''0001010101010101'',
             Emit (SolutionResult ''addr1dev'' (- 1) True None),
             Emit (Solution ''addr1dev'' ''c1'' ''0001010101010101'')]
   \<and> map_option (\<lambda>s'. submissionsFor ''addr1dev'' ''c1'' (trace s'))
        (checkAndMineDevFee exCollaborators exFeeRounds exState) = Some 2"
proof -
  obtain s' where r: "checkAndMineDevFee exCollaborators exFeeRounds exState = Some s'"
    and t: "trace s'
       = [Emit (MiningStart ''addr1dev'' (- 1) ''c1''),
          Emit (SolutionSubmit ''addr1dev'' (- 1) ''c1'' ''0000000000000000'' ''0000000000000000addr1devc1...''),
          Post ''addr1dev'' ''c1'' ''0000000000000000'',
          Emit (SolutionResult ''addr1dev'' (- 1) True None),
          Emit (Solution ''addr1dev'' ''c1'' ''0000000000000000''),
          Emit (MiningStart ''addr1dev'' (- 1) ''c1''),
          Emit (SolutionSubmit ''addr1dev'' (- 1) ''c1'' ''0001010101010101'' ''0001010101010101addr1devc1...''),
          Post ''addr1dev'' ''c1'' ''0001010101010101'',
          Emit (SolutionResult ''addr1dev'' (- 1) True None),
          Emit (Solution ''addr1dev'' ''c1'' ''0001010101010101'')]"
    using exFeeRounds_run by blast
  show ?thesis unfolding r by (simp add: t submissionsFor_def)
qed

end
